theory Spec2Isabelle
  imports Complex_Main "HOL-Library.AList" "HOL-Library.Log_Nat"
begin

section \<open>Data model\<close>

text \<open>
  Enumerations of \<^verbatim>\<open>app/models/test.py\<close>, \<^verbatim>\<open>app/models/certificate.py\<close> and
  \<^verbatim>\<open>app/models/user.py\<close>.
\<close>

datatype TestStatus = SCHEDULED | IN_PROGRESS | COMPLETED | CANCELLED

datatype TestResult = PENDING | PASS | FAIL | CONDITIONAL

datatype CertificateStatus = DRAFT | ISSUED | EXPIRED | REVOKED | SUPERSEDED

datatype UserRole = SUPER_ADMIN | COMPANY_ADMIN | INSPECTOR | VIEWER

text \<open>
  What a request can fail with: the HTTP errors the routes raise, the exceptions of the
  query and flush calls, a failure of the document renderer, and \<^verbatim>\<open>TypeError\<close> from
  comparing measured values that Python cannot order.
\<close>

datatype error =
  HTTP_400 | HTTP_403 | HTTP_404 | HTTP_422
  | MultipleResultsFound | IntegrityError | RenderError | AttributeError | TypeError

section \<open>Python floats\<close>

text \<open>
  A Python \<^verbatim>\<open>float\<close> is an IEEE 754 binary64 value: a finite real on the binary64 grid,
  an infinity or a NaN. The two zeros are one value: nothing here divides by a zero or
  prints one. A Python \<^verbatim>\<open>int\<close> used in float arithmetic is its exact value.
\<close>

datatype pyfloat = Finite real | PInf | NInf | NaN

text \<open>Rounding a real to the nearest integer, a tie to the even neighbour.\<close>

definition rne :: "real \<Rightarrow> int" where
  "rne y =
     (let f = \<lfloor>y\<rfloor>; r = y - of_int f in
      if r < 1/2 then f else if r > 1/2 then f + 1 else if even f then f else f + 1)"

text \<open>
  The spacing of the binary64 grid at a magnitude \<open>a\<close>: \<open>2 ^ -1074\<close> below the smallest
  normal number \<open>2 ^ -1022\<close>, and \<open>2 ^ (e - 52)\<close> in the binade \<open>2 ^ e \<le> a < 2 ^ (e + 1)\<close>;
  \<open>bitlen\<close> counts the binary digits of \<open>\<lfloor>a * 2 ^ 1074\<rfloor>\<close>.
\<close>

definition ulp_shift :: "real \<Rightarrow> nat" where
  "ulp_shift a = nat (bitlen \<lfloor>a * 2 ^ 1074\<rfloor> - 53)"

definition ulp :: "real \<Rightarrow> real" where
  "ulp a = 2 ^ ulp_shift a / 2 ^ 1074"

text \<open>
  Round to nearest, ties to even, overflow to an infinity: the result of every binary64
  operation on its exact real result.
\<close>

definition round_double :: "real \<Rightarrow> pyfloat" where
  "round_double x =
     (let a = \<bar>x\<bar>; r = of_int (rne (a / ulp a)) * ulp a in
      if r \<ge> 2 ^ 1024 then (if 0 < x then PInf else NInf)
      else Finite (if x < 0 then - r else r))"

text \<open>A real that is a binary64 value: rounding leaves it as it is.\<close>

definition is_double :: "real \<Rightarrow> bool" where
  "is_double d \<longleftrightarrow> round_double d = Finite d"

text \<open>\<^verbatim>\<open>x * y\<close> on floats.\<close>

fun fmul :: "pyfloat \<Rightarrow> pyfloat \<Rightarrow> pyfloat" where
  "fmul NaN y = NaN"
| "fmul x NaN = NaN"
| "fmul (Finite x) (Finite y) = round_double (x * y)"
| "fmul (Finite x) PInf = (if x = 0 then NaN else if 0 < x then PInf else NInf)"
| "fmul (Finite x) NInf = (if x = 0 then NaN else if 0 < x then NInf else PInf)"
| "fmul PInf (Finite y) = (if y = 0 then NaN else if 0 < y then PInf else NInf)"
| "fmul NInf (Finite y) = (if y = 0 then NaN else if 0 < y then NInf else PInf)"
| "fmul PInf PInf = PInf"
| "fmul PInf NInf = NInf"
| "fmul NInf PInf = NInf"
| "fmul NInf NInf = PInf"

text \<open>
  \<^verbatim>\<open>x / y\<close> on floats, and on two ints (true division rounds the exact quotient). The
  validator divides by 100 and by a positive count only; Python raises on a zero divisor,
  which is left as the rounding of \<open>x / 0 = 0\<close> here and never evaluated.
\<close>

fun fdiv :: "pyfloat \<Rightarrow> pyfloat \<Rightarrow> pyfloat" where
  "fdiv NaN y = NaN"
| "fdiv x NaN = NaN"
| "fdiv (Finite x) (Finite y) = round_double (x / y)"
| "fdiv (Finite x) PInf = Finite 0"
| "fdiv (Finite x) NInf = Finite 0"
| "fdiv PInf (Finite y) = (if 0 \<le> y then PInf else NInf)"
| "fdiv NInf (Finite y) = (if 0 \<le> y then NInf else PInf)"
| "fdiv PInf PInf = NaN"
| "fdiv PInf NInf = NaN"
| "fdiv NInf PInf = NaN"
| "fdiv NInf NInf = NaN"

text \<open>\<^verbatim>\<open>x <= y\<close>, \<^verbatim>\<open>x >= y\<close>, \<^verbatim>\<open>x < y\<close> and \<^verbatim>\<open>x == y\<close>: false when either side is a NaN.\<close>

fun fle :: "pyfloat \<Rightarrow> pyfloat \<Rightarrow> bool" where
  "fle NaN y = False"
| "fle x NaN = False"
| "fle (Finite x) (Finite y) = (x \<le> y)"
| "fle NInf y = True"
| "fle x PInf = True"
| "fle PInf y = False"
| "fle x NInf = False"

definition fge :: "pyfloat \<Rightarrow> pyfloat \<Rightarrow> bool" where
  "fge x y = fle y x"

definition feq :: "pyfloat \<Rightarrow> pyfloat \<Rightarrow> bool" where
  "feq x y \<longleftrightarrow> fle x y \<and> fle y x"

definition flt :: "pyfloat \<Rightarrow> pyfloat \<Rightarrow> bool" where
  "flt x y \<longleftrightarrow> fle x y \<and> \<not> fle y x"

text \<open>The literal \<^verbatim>\<open>0.95\<close>: the binary64 value nearest to 95/100.\<close>

definition c95 :: pyfloat where
  "c95 = round_double (95 / 100)"

text \<open>\<^verbatim>\<open>x or d\<close> on an optional float: \<^verbatim>\<open>None\<close> and zero are falsy, a NaN is not.\<close>

definition float_or :: "pyfloat option \<Rightarrow> pyfloat \<Rightarrow> pyfloat" where
  "float_or x d = (case x of None \<Rightarrow> d | Some v \<Rightarrow> if v = Finite 0 then d else v)"

text \<open>
  \<^verbatim>\<open>round(x, 1)\<close>: the exact value is rounded to one decimal, a tie to the even
  neighbour, and the decimal is read back as the nearest float.
\<close>

fun round1 :: "pyfloat \<Rightarrow> pyfloat" where
  "round1 (Finite x) = round_double (of_int (rne (x * 10)) / 10)"
| "round1 x = x"

section \<open>Measured values\<close>

text \<open>
  A string of user data is its list of code points. \<^verbatim>\<open>measured_values\<close> is a JSON object:
  its values are any JSON value; a JSON number is a Python \<^verbatim>\<open>int\<close> (its exact value)
  or \<^verbatim>\<open>float\<close>.
\<close>

type_synonym pystr = "nat list"

datatype jval =
  JNull | JBool bool | JNum pyfloat | JStr pystr | JList "jval list"
  | JObj "(string \<times> jval) list"

text \<open>A number or a bool as a number (\<^verbatim>\<open>True\<close> is 1).\<close>

fun num_of :: "jval \<Rightarrow> pyfloat option" where
  "num_of (JNum x) = Some x"
| "num_of (JBool b) = Some (Finite (if b then 1 else 0))"
| "num_of v = None"

text \<open>Truth value of a JSON value in \<^verbatim>\<open>if brake_ok:\<close>.\<close>

fun truthy :: "jval \<Rightarrow> bool" where
  "truthy JNull = False"
| "truthy (JBool b) = b"
| "truthy (JNum x) = (x \<noteq> Finite 0)"
| "truthy (JStr s) = (s \<noteq> [])"
| "truthy (JList xs) = (xs \<noteq> [])"
| "truthy (JObj kvs) = (kvs \<noteq> [])"

text \<open>\<^verbatim>\<open>s <= t\<close> on strings: lexicographic on the code points.\<close>

fun str_le :: "pystr \<Rightarrow> pystr \<Rightarrow> bool" where
  "str_le [] t = True"
| "str_le (x # s) [] = False"
| "str_le (x # s) (y # t) = (x < y \<or> (x = y \<and> str_le s t))"

text \<open>
  \<^verbatim>\<open>a <= b\<close> on two JSON values: numbers and bools compare by value, strings
  lexicographically; two lists compare item by item, where Python takes items that are
  the same object as equal, so the outcome is not a function of the values alone and is
  the parameter \<open>lle\<close>; every other pair raises \<^verbatim>\<open>TypeError\<close>.
\<close>

type_synonym list_le = "jval list \<Rightarrow> jval list \<Rightarrow> error + bool"

definition py_le :: "list_le \<Rightarrow> jval \<Rightarrow> jval \<Rightarrow> error + bool" where
  "py_le lle a b =
     (case (num_of a, num_of b) of
        (Some x, Some y) \<Rightarrow> Inr (fle x y)
      | _ \<Rightarrow>
         (case (a, b) of
            (JStr s, JStr t) \<Rightarrow> Inr (str_le s t)
          | (JList xs, JList ys) \<Rightarrow> lle xs ys
          | _ \<Rightarrow> Inl TypeError))"

text \<open>
  The columns of \<^verbatim>\<open>Test\<close> that the routes and the validator read or write.
  Identifiers (UUIDs) are natural numbers.
\<close>

record Test =
  test_id :: nat
  test_number :: string
  t_asset_id :: nat
  t_status :: TestStatus
  result :: TestResult
  safe_working_load :: "pyfloat option"
  test_load :: "pyfloat option"
  test_load_percentage :: "pyfloat option"
  measured_values :: "(string \<rightharpoonup> jval) option"
  defects_found :: "pystr option"
  is_validated :: bool
  validated_by :: "string option"

section \<open>Result validation (\<^verbatim>\<open>app/services/test_service.py\<close>)\<close>

text \<open>The status string of one entry of \<^verbatim>\<open>details\<close>: "pass", "fail" or "conditional".\<close>

datatype check_status = Pass | Fail | Conditional

text \<open>
  The local variables of \<^verbatim>\<open>validate_test_result\<close>. An entry of \<^verbatim>\<open>details\<close> keeps its
  status; the message text is left out.
\<close>

record vstate =
  details :: "(string \<times> check_status) list"
  recommendations :: "string list"
  checks_passed :: nat
  total_checks :: nat

definition init_vstate :: vstate where
  "init_vstate = \<lparr>details = [], recommendations = [], checks_passed = 0, total_checks = 0\<rparr>"

text \<open>
  \<^verbatim>\<open>str.strip()\<close> removes the characters Python takes as whitespace from both ends.
\<close>

definition is_space :: "nat \<Rightarrow> bool" where
  "is_space c \<longleftrightarrow>
     c \<in> {9, 10, 11, 12, 13, 28, 29, 30, 31, 32, 133, 160, 5760, 8232, 8233, 8239, 8287, 12288}
     \<or> (8192 \<le> c \<and> c \<le> 8202)"

definition strip :: "pystr \<Rightarrow> pystr" where
  "strip s = rev (dropWhile is_space (rev (dropWhile is_space s)))"

definition set_detail :: "string \<Rightarrow> check_status \<Rightarrow> vstate \<Rightarrow> vstate" where
  "set_detail k v s = s\<lparr>details := AList.update k v (details s)\<rparr>"

definition count_check :: "vstate \<Rightarrow> vstate" where
  "count_check s = s\<lparr>total_checks := total_checks s + 1\<rparr>"

definition passed :: "vstate \<Rightarrow> vstate" where
  "passed s = s\<lparr>checks_passed := checks_passed s + 1\<rparr>"

definition recommend :: "string \<Rightarrow> vstate \<Rightarrow> vstate" where
  "recommend r s = s\<lparr>recommendations := recommendations s @ [r]\<rparr>"

definition measured_of :: "Test \<Rightarrow> (string \<rightharpoonup> jval)" where
  "measured_of test = (case measured_values test of None \<Rightarrow> Map.empty | Some m \<Rightarrow> m)"

text \<open>\<^verbatim>\<open>expected_test_load = swl * (test.test_load_percentage or 125) / 100\<close>\<close>

definition expected_test_load :: "Test \<Rightarrow> pyfloat" where
  "expected_test_load test =
     fdiv (fmul (float_or (safe_working_load test) (Finite 0))
                (float_or (test_load_percentage test) (Finite 125)))
          (Finite 100)"

text \<open>Check 1: test load applied correctly (always run).\<close>

definition load_check :: "Test \<Rightarrow> vstate \<Rightarrow> vstate" where
  "load_check test s =
     (let s = count_check s in
      if fge (float_or (test_load test) (Finite 0)) (fmul (expected_test_load test) c95)
      then passed (set_detail ''load_check'' Pass s)
      else recommend ''Ensure test load is at least 125% of SWL''
             (set_detail ''load_check'' Fail s))"

text \<open>
  A check that compares a measured value with its limit: the check is counted, then the
  comparison may raise.
\<close>

definition compared_check ::
  "list_le \<Rightarrow> string \<Rightarrow> string \<Rightarrow> jval \<Rightarrow> jval \<Rightarrow> vstate \<Rightarrow> error + vstate" where
  "compared_check lle name advice v limit s =
     (let s = count_check s in
      case py_le lle v limit of
        Inl err \<Rightarrow> Inl err
      | Inr ok \<Rightarrow>
          Inr (if ok then passed (set_detail name Pass s)
               else recommend advice (set_detail name Fail s)))"

text \<open>Check 2: deflection within limits, if provided (default limit \<^verbatim>\<open>float("inf")\<close>).\<close>

definition deflection_check :: "list_le \<Rightarrow> Test \<Rightarrow> vstate \<Rightarrow> error + vstate" where
  "deflection_check lle test s =
     (case measured_of test ''deflection'' of
        None \<Rightarrow> Inr s
      | Some deflection \<Rightarrow>
          compared_check lle ''deflection_check''
            ''Excessive deflection detected - investigate structural integrity''
            deflection
            (case measured_of test ''max_deflection'' of None \<Rightarrow> JNum PInf | Some m \<Rightarrow> m)
            s)"

text \<open>Check 3: visual inspection (always run).\<close>

definition has_defects :: "Test \<Rightarrow> bool" where
  "has_defects test =
     (case defects_found test of
        None \<Rightarrow> False
      | Some d \<Rightarrow> d \<noteq> [] \<and> length (strip d) > 0)"

definition visual_check :: "Test \<Rightarrow> vstate \<Rightarrow> vstate" where
  "visual_check test s =
     (let s = count_check s in
      if has_defects test
      then recommend ''Address noted defects before certification''
             (set_detail ''visual_check'' Conditional s)
      else passed (set_detail ''visual_check'' Pass s))"

text \<open>Check 4: permanent deformation, if measured (default limit 0.25).\<close>

definition deformation_check :: "list_le \<Rightarrow> Test \<Rightarrow> vstate \<Rightarrow> error + vstate" where
  "deformation_check lle test s =
     (case measured_of test ''permanent_deformation'' of
        None \<Rightarrow> Inr s
      | Some deformation \<Rightarrow>
          compared_check lle ''deformation_check''
            ''Permanent deformation exceeds acceptable limits - equipment may be compromised''
            deformation
            (case measured_of test ''max_permanent_deformation'' of
               None \<Rightarrow> JNum (Finite (1/4)) | Some m \<Rightarrow> m)
            s)"

text \<open>Check 5: brake test.\<close>

definition brake_check :: "Test \<Rightarrow> vstate \<Rightarrow> vstate" where
  "brake_check test s =
     (case measured_of test ''brake_test'' of
        None \<Rightarrow> s
      | Some brake_ok \<Rightarrow>
          (let s = count_check s in
           if truthy brake_ok
           then passed (set_detail ''brake_check'' Pass s)
           else recommend ''Brake system requires immediate attention''
                  (set_detail ''brake_check'' Fail s)))"

text \<open>Check 6: load indicator accuracy (default tolerance 0.5).\<close>

definition accuracy_check :: "list_le \<Rightarrow> Test \<Rightarrow> vstate \<Rightarrow> error + vstate" where
  "accuracy_check lle test s =
     (case measured_of test ''indicator_accuracy'' of
        None \<Rightarrow> Inr s
      | Some accuracy \<Rightarrow>
          compared_check lle ''accuracy_check''
            ''Load indicator requires calibration''
            accuracy
            (case measured_of test ''accuracy_tolerance'' of
               None \<Rightarrow> JNum (Finite (1/2)) | Some m \<Rightarrow> m)
            s)"

text \<open>The six checks in the order of the source; an exception ends the run.\<close>

definition run_checks :: "list_le \<Rightarrow> Test \<Rightarrow> error + vstate" where
  "run_checks lle test =
     (case deflection_check lle test (load_check test init_vstate) of
        Inl err \<Rightarrow> Inl err
      | Inr s2 \<Rightarrow>
         (case deformation_check lle test (visual_check test s2) of
            Inl err \<Rightarrow> Inl err
          | Inr s4 \<Rightarrow> accuracy_check lle test (brake_check test s4)))"

text \<open>
  \<^verbatim>\<open>pass_percentage = (checks_passed / total_checks * 100) if total_checks > 0 else 0\<close>
\<close>

definition pass_percentage :: "vstate \<Rightarrow> pyfloat" where
  "pass_percentage s =
     (if total_checks s > 0
      then fmul (fdiv (Finite (real (checks_passed s))) (Finite (real (total_checks s))))
                (Finite 100)
      else Finite 0)"

definition any_fail :: "(string \<times> check_status) list \<Rightarrow> bool" where
  "any_fail d = list_ex (\<lambda>(k, st). st = Fail) d"

definition percentage_result :: "vstate \<Rightarrow> TestResult" where
  "percentage_result s =
     (if feq (pass_percentage s) (Finite 100) then PASS
      else if fge (pass_percentage s) (Finite 75) \<and> \<not> any_fail (details s) then CONDITIONAL
      else FAIL)"

text \<open>The loop over \<^verbatim>\<open>critical_checks\<close>: the first failed one sets FAIL and breaks.\<close>

fun critical_override ::
  "(string \<times> check_status) list \<Rightarrow> string list \<Rightarrow> TestResult \<Rightarrow> TestResult" where
  "critical_override d [] r = r"
| "critical_override d (c # cs) r =
     (if map_of d c = Some Fail then FAIL else critical_override d cs r)"

definition critical_checks :: "string list" where
  "critical_checks = [''load_check'', ''brake_check'', ''deformation_check'']"

text \<open>\<^verbatim>\<open>"\n".join(recommendations) if recommendations else None\<close>\<close>

fun join_lines :: "string list \<Rightarrow> string" where
  "join_lines [] = []"
| "join_lines [x] = x"
| "join_lines (x # y # ys) = x @ [CHR 0x0A] @ join_lines (y # ys)"

record summary =
  s_checks_passed :: nat
  s_total_checks :: nat
  s_pass_percentage :: pyfloat

record validation =
  v_result :: TestResult
  v_details :: "(string \<times> check_status) list"
  v_summary :: summary
  v_recommendations :: "string option"

definition summarise :: "vstate \<Rightarrow> validation" where
  "summarise s =
     \<lparr>v_result = critical_override (details s) critical_checks (percentage_result s),
      v_details = details s,
      v_summary = \<lparr>s_checks_passed = checks_passed s,
                   s_total_checks = total_checks s,
                   s_pass_percentage = round1 (pass_percentage s)\<rparr>,
      v_recommendations =
        (if recommendations s = [] then None else Some (join_lines (recommendations s)))\<rparr>"

definition validate_test_result :: "list_le \<Rightarrow> Test \<Rightarrow> error + validation" where
  "validate_test_result lle test =
     (case run_checks lle test of
        Inl err \<Rightarrow> Inl err
      | Inr s \<Rightarrow> Inr (summarise s))"

text \<open>
  The counters agree with \<^verbatim>\<open>details\<close>: one entry per counted check, under distinct
  names, and \<^verbatim>\<open>checks_passed\<close> entries with status "pass".
\<close>

definition consistent :: "vstate \<Rightarrow> bool" where
  "consistent s \<longleftrightarrow>
     total_checks s = length (details s) \<and>
     checks_passed s = length (filter (\<lambda>(k, st). st = Pass) (details s)) \<and>
     distinct (map fst (details s))"

text \<open>An optional check leaves no entry, or one entry "pass" or "fail" under its name.\<close>

definition optional_entry :: "string \<Rightarrow> (string \<times> check_status) list \<Rightarrow> bool" where
  "optional_entry k es \<longleftrightarrow> es = [] \<or> es = [(k, Pass)] \<or> es = [(k, Fail)]"

section \<open>Certificates (\<^verbatim>\<open>app/models/certificate.py\<close>)\<close>

text \<open>
  A date is its day number (\<^verbatim>\<open>date.toordinal()\<close>); adding \<^verbatim>\<open>timedelta(days=n)\<close> adds
  \<open>n\<close>, and the difference of two dates in \<^verbatim>\<open>.days\<close> is the difference of the numbers.
\<close>

record Certificate =
  certificate_id :: nat
  c_asset_id :: nat
  certificate_number :: string
  issue_date :: int
  expiry_date :: int
  c_status :: CertificateStatus
  c_test_id :: "nat option"
  pdf_url :: "string option"
  pdf_hash :: "string option"
  signed_by :: "string option"
  inspector_name :: "string option"
  c_notes :: "string option"

text \<open>The two properties take \<^verbatim>\<open>date.today()\<close> as the argument \<open>today\<close>.\<close>

definition is_valid :: "Certificate \<Rightarrow> int \<Rightarrow> bool" where
  "is_valid c today \<longleftrightarrow> c_status c = ISSUED \<and> expiry_date c \<ge> today"

definition days_until_expiry :: "Certificate \<Rightarrow> int \<Rightarrow> int" where
  "days_until_expiry c today = expiry_date c - today"

fun status_value :: "CertificateStatus \<Rightarrow> string" where
  "status_value DRAFT = ''draft''"
| "status_value ISSUED = ''issued''"
| "status_value EXPIRED = ''expired''"
| "status_value REVOKED = ''revoked''"
| "status_value SUPERSEDED = ''superseded''"

section \<open>Persistent state and request context\<close>

record Asset =
  asset_id :: nat
  company_id :: nat
  asset_name :: string
  asset_code :: string
  qr_data :: "string option"
  is_deleted :: bool
  certificate_expiry_date :: "int option"
  last_inspection_date :: "int option"
  next_inspection_date :: "int option"

record User =
  user_id :: nat
  full_name :: string
  role :: UserRole
  u_company_id :: "nat option"

record db =
  assets :: "Asset list"
  tests :: "Test list"
  certificates :: "Certificate list"

text \<open>
  What a request reads from outside the store: \<^verbatim>\<open>date.today()\<close>, the date and the
  two \<^verbatim>\<open>strftime\<close> buckets of \<^verbatim>\<open>datetime.utcnow()\<close> (digits only) and the fresh
  \<^verbatim>\<open>uuid4\<close> primary key.
\<close>

record env =
  today :: int
  utc_today :: int
  utc_month :: string
  utc_day :: string
  fresh_id :: nat

text \<open>\<^verbatim>\<open>Result.scalar_one_or_none()\<close> on the rows a query selects.\<close>

fun scalar_one_or_none :: "'a list \<Rightarrow> error + 'a option" where
  "scalar_one_or_none [] = Inr None"
| "scalar_one_or_none [x] = Inr (Some x)"
| "scalar_one_or_none (x # y # ys) = Inl MultipleResultsFound"

text \<open>\<^verbatim>\<open>require_inspector\<close> of \<^verbatim>\<open>app/api/deps.py\<close>.\<close>

definition require_inspector :: "User \<Rightarrow> bool" where
  "require_inspector u \<longleftrightarrow> role u \<in> {SUPER_ADMIN, COMPANY_ADMIN, INSPECTOR}"

text \<open>
  The tenant check of the routes:
  \<^verbatim>\<open>current_user.role != SUPER_ADMIN and asset.company_id != current_user.company_id\<close>.
\<close>

definition access_denied :: "User \<Rightarrow> Asset \<Rightarrow> bool" where
  "access_denied u a \<longleftrightarrow> role u \<noteq> SUPER_ADMIN \<and> Some (company_id a) \<noteq> u_company_id u"

definition update_asset :: "Asset \<Rightarrow> db \<Rightarrow> db" where
  "update_asset a d = d\<lparr>assets := map (\<lambda>x. if asset_id x = asset_id a then a else x) (assets d)\<rparr>"

definition update_test_row :: "Test \<Rightarrow> db \<Rightarrow> db" where
  "update_test_row t d = d\<lparr>tests := map (\<lambda>x. if test_id x = test_id t then t else x) (tests d)\<rparr>"

definition update_certificate :: "Certificate \<Rightarrow> db \<Rightarrow> db" where
  "update_certificate c d =
     d\<lparr>certificates :=
         map (\<lambda>x. if certificate_id x = certificate_id c then c else x) (certificates d)\<rparr>"

text \<open>
  Inserting a certificate: the primary key and the \<^verbatim>\<open>unique=True\<close> column
  \<^verbatim>\<open>certificate_number\<close> reject a duplicate at flush.
\<close>

definition insert_certificate :: "Certificate \<Rightarrow> db \<Rightarrow> error + db" where
  "insert_certificate c d =
     (if list_ex (\<lambda>x. certificate_id x = certificate_id c
                      \<or> certificate_number x = certificate_number c) (certificates d)
      then Inl IntegrityError
      else Inr (d\<lparr>certificates := certificates d @ [c]\<rparr>))"

text \<open>Inserting a test: only the primary key is unique.\<close>

definition insert_test :: "Test \<Rightarrow> db \<Rightarrow> error + db" where
  "insert_test t d =
     (if list_ex (\<lambda>x. test_id x = test_id t) (tests d)
      then Inl IntegrityError
      else Inr (d\<lparr>tests := tests d @ [t]\<rparr>))"

section \<open>Sequence numbering\<close>

fun decimal :: "nat \<Rightarrow> string" where
  "decimal n = (if n < 10 then [char_of (48 + n)] else decimal (n div 10) @ [char_of (48 + n mod 10)])"

declare decimal.simps [simp del]

text \<open>The format specs \<^verbatim>\<open>:05d\<close> and \<^verbatim>\<open>:04d\<close>: zero padding to a minimum width.\<close>

definition zero_pad :: "nat \<Rightarrow> nat \<Rightarrow> string" where
  "zero_pad w n = replicate (w - length (decimal n)) (CHR ''0'') @ decimal n"

text \<open>\<^verbatim>\<open>column.like(prefix + "%")\<close> for a prefix without wildcard characters.\<close>

definition like_prefix :: "string \<Rightarrow> string \<Rightarrow> bool" where
  "like_prefix p s \<longleftrightarrow> take (length p) s = p"

definition generate_certificate_number :: "env \<Rightarrow> db \<Rightarrow> string" where
  "generate_certificate_number e d =
     (let prefix = ''CERT-'' @ utc_month e @ ''-'';
          count = length (filter (\<lambda>c. like_prefix prefix (certificate_number c)) (certificates d))
      in prefix @ zero_pad 5 (count + 1))"

definition generate_test_number :: "env \<Rightarrow> db \<Rightarrow> string" where
  "generate_test_number e d =
     (let prefix = ''TST-'' @ utc_day e @ ''-'';
          count = length (filter (\<lambda>t. like_prefix prefix (test_number t)) (tests d))
      in prefix @ zero_pad 4 (count + 1))"

section \<open>Certificate routes (\<^verbatim>\<open>app/api/routes/certificates.py\<close>)\<close>

text \<open>\<^verbatim>\<open>CertificateGenerateRequest\<close>: \<^verbatim>\<open>validity_days\<close> is declared \<^verbatim>\<open>Field(ge=30, le=730)\<close>.\<close>

record CertificateGenerateRequest =
  req_asset_id :: nat
  req_test_id :: "nat option"
  validity_days :: int
  req_inspector_name :: string
  req_notes :: "string option"

definition request_valid :: "CertificateGenerateRequest \<Rightarrow> bool" where
  "request_valid r \<longleftrightarrow> 30 \<le> validity_days r \<and> validity_days r \<le> 730"

record CertificateResponse =
  r_certificate :: Certificate
  r_is_valid :: bool
  r_days_until_expiry :: int

definition lookup_asset :: "nat \<Rightarrow> db \<Rightarrow> error + Asset option" where
  "lookup_asset i d =
     scalar_one_or_none (filter (\<lambda>a. asset_id a = i \<and> \<not> is_deleted a) (assets d))"

text \<open>\<^verbatim>\<open>if request.test_id:\<close> followed by the query; a missing test is a 404.\<close>

definition lookup_test :: "nat option \<Rightarrow> db \<Rightarrow> error + Test option" where
  "lookup_test ti d =
     (case ti of
        None \<Rightarrow> Inr None
      | Some i \<Rightarrow>
          (case scalar_one_or_none (filter (\<lambda>t. test_id t = i) (tests d)) of
             Inl err \<Rightarrow> Inl err
           | Inr None \<Rightarrow> Inl HTTP_404
           | Inr (Some t) \<Rightarrow> Inr (Some t)))"

text \<open>
  The document renderer \<^verbatim>\<open>generate_certificate_pdf\<close> is a parameter: it returns the
  file path and the content hash it stores in \<^verbatim>\<open>pdf_hash\<close>, or fails.
\<close>

type_synonym renderer = "Certificate \<Rightarrow> Asset \<Rightarrow> Test option \<Rightarrow> (string \<times> string) option"

text \<open>The \<^verbatim>\<open>Certificate(...)\<close> record that \<^verbatim>\<open>generate_certificate\<close> creates.\<close>

definition new_certificate ::
  "env \<Rightarrow> CertificateGenerateRequest \<Rightarrow> User \<Rightarrow> string \<Rightarrow> int \<Rightarrow> int \<Rightarrow> Certificate" where
  "new_certificate e request current_user cert_number issue expiry =
     \<lparr>certificate_id = fresh_id e,
      c_asset_id = req_asset_id request,
      certificate_number = cert_number,
      issue_date = issue,
      expiry_date = expiry,
      c_status = ISSUED,
      c_test_id = req_test_id request,
      pdf_url = None,
      pdf_hash = None,
      signed_by = Some (full_name current_user),
      inspector_name = Some (req_inspector_name request),
      c_notes = req_notes request\<rparr>"

definition generate_certificate ::
  "renderer \<Rightarrow> env \<Rightarrow> CertificateGenerateRequest \<Rightarrow> User \<Rightarrow> db
     \<Rightarrow> error + (CertificateResponse \<times> db)" where
  "generate_certificate render e request current_user d =
     (if \<not> require_inspector current_user then Inl HTTP_403
      else if \<not> request_valid request then Inl HTTP_422
      else
       (case lookup_asset (req_asset_id request) d of
          Inl err \<Rightarrow> Inl err
        | Inr None \<Rightarrow> Inl HTTP_404
        | Inr (Some asset) \<Rightarrow>
           (if access_denied current_user asset then Inl HTTP_403
            else
             (case lookup_test (req_test_id request) d of
                Inl err \<Rightarrow> Inl err
              | Inr test \<Rightarrow>
                 (let cert_number = generate_certificate_number e d;
                      issue = today e;
                      expiry = issue + validity_days request;
                      certificate =
                        new_certificate e request current_user cert_number issue expiry
                  in
                   (case insert_certificate certificate d of
                      Inl err \<Rightarrow> Inl err
                    | Inr d1 \<Rightarrow>
                       (case render certificate asset test of
                          None \<Rightarrow> Inl RenderError
                        | Some (url, hash) \<Rightarrow>
                           (let certificate =
                                  certificate\<lparr>pdf_url := Some url, pdf_hash := Some hash\<rparr>;
                                asset =
                                  asset\<lparr>certificate_expiry_date := Some expiry,
                                        last_inspection_date := Some issue,
                                        next_inspection_date := Some (expiry - 30)\<rparr>;
                                d2 = update_asset asset (update_certificate certificate d1)
                            in Inr (\<lparr>r_certificate = certificate,
                                     r_is_valid = is_valid certificate (today e),
                                     r_days_until_expiry =
                                       days_until_expiry certificate (today e)\<rparr>,
                                    d2)))))))))"

text \<open>\<^verbatim>\<open>certificate.asset\<close>, the relationship over the foreign key.\<close>

definition certificate_asset :: "Certificate \<Rightarrow> db \<Rightarrow> Asset option" where
  "certificate_asset c d = find (\<lambda>a. asset_id a = c_asset_id c) (assets d)"

text \<open>
  The tenant check through a related asset; the asset is only read when the caller is not
  a super admin.
\<close>

definition related_access_denied :: "User \<Rightarrow> Asset option \<Rightarrow> error + bool" where
  "related_access_denied u a =
     (if role u = SUPER_ADMIN then Inr False
      else case a of
        None \<Rightarrow> Inl AttributeError
      | Some asset \<Rightarrow> Inr (Some (company_id asset) \<noteq> u_company_id u))"

text \<open>\<^verbatim>\<open>f"{certificate.notes or ''}\nRevoked: {reason}"\<close>\<close>

definition revoked_notes :: "string option \<Rightarrow> string \<Rightarrow> string" where
  "revoked_notes old reason =
     (case old of None \<Rightarrow> [] | Some n \<Rightarrow> n) @ [CHR 0x0A] @ ''Revoked: '' @ reason"

definition revoke_certificate ::
  "nat \<Rightarrow> string option \<Rightarrow> User \<Rightarrow> db \<Rightarrow> error + (Certificate \<times> db)" where
  "revoke_certificate cid reason current_user d =
     (if \<not> require_inspector current_user then Inl HTTP_403
      else case scalar_one_or_none (filter (\<lambda>c. certificate_id c = cid) (certificates d)) of
        Inl err \<Rightarrow> Inl err
      | Inr None \<Rightarrow> Inl HTTP_404
      | Inr (Some certificate) \<Rightarrow>
          (case related_access_denied current_user (certificate_asset certificate d) of
             Inl err \<Rightarrow> Inl err
           | Inr True \<Rightarrow> Inl HTTP_403
           | Inr False \<Rightarrow>
               let certificate = certificate\<lparr>c_status := REVOKED\<rparr>;
                   certificate =
                     (case reason of
                        None \<Rightarrow> certificate
                      | Some r \<Rightarrow>
                          if r = [] then certificate
                          else certificate\<lparr>c_notes := Some (revoked_notes (c_notes certificate) r)\<rparr>)
               in Inr (certificate, update_certificate certificate d)))"

text \<open>The public verification fact; a key missing from the returned dict is \<open>None\<close>.\<close>

record verification =
  vr_valid :: bool
  vr_certificate_number :: "string option"
  vr_asset_name :: "string option"
  vr_asset_code :: "string option"
  vr_issue_date :: "int option"
  vr_expiry_date :: "int option"
  vr_status :: "string option"
  vr_days_until_expiry :: "int option"
  vr_message :: string

definition verify_certificate :: "string \<Rightarrow> env \<Rightarrow> db \<Rightarrow> error + verification" where
  "verify_certificate number e d =
     (case scalar_one_or_none (filter (\<lambda>c. certificate_number c = number) (certificates d)) of
        Inl err \<Rightarrow> Inl err
      | Inr None \<Rightarrow>
          Inr \<lparr>vr_valid = False, vr_certificate_number = None, vr_asset_name = None,
               vr_asset_code = None, vr_issue_date = None, vr_expiry_date = None,
               vr_status = None, vr_days_until_expiry = None,
               vr_message = ''Certificate not found''\<rparr>
      | Inr (Some certificate) \<Rightarrow>
          (case certificate_asset certificate d of
             None \<Rightarrow> Inl AttributeError
           | Some asset \<Rightarrow>
               let valid = is_valid certificate (today e) in
               Inr \<lparr>vr_valid = valid,
                    vr_certificate_number = Some (certificate_number certificate),
                    vr_asset_name = Some (asset_name asset),
                    vr_asset_code = Some (asset_code asset),
                    vr_issue_date = Some (issue_date certificate),
                    vr_expiry_date = Some (expiry_date certificate),
                    vr_status = Some (status_value (c_status certificate)),
                    vr_days_until_expiry =
                      Some (if valid then days_until_expiry certificate (today e) else 0),
                    vr_message =
                      (if valid then ''Certificate is valid''
                       else ''Certificate status: '' @ status_value (c_status certificate))\<rparr>))"

section \<open>Test routes (\<^verbatim>\<open>app/api/routes/tests.py\<close>)\<close>

text \<open>The request schemas of \<^verbatim>\<open>app/schemas/test.py\<close>, with the fields the model keeps.\<close>

record TestCreate =
  tc_asset_id :: nat
  tc_safe_working_load :: "pyfloat option"
  tc_test_load :: "pyfloat option"
  tc_test_load_percentage :: "pyfloat option"

record TestSubmit =
  ts_asset_id :: "nat option"
  ts_qr_data :: "string option"
  ts_safe_working_load :: pyfloat
  ts_test_load :: pyfloat
  ts_measured_values :: "(string \<rightharpoonup> jval) option"
  ts_defects_found :: "pystr option"

text \<open>
  \<^verbatim>\<open>TestUpdate\<close> after \<^verbatim>\<open>model_dump(exclude_unset=True)\<close>: \<open>None\<close> is a field the
  caller did not send, \<open>Some v\<close> is assigned with \<^verbatim>\<open>setattr\<close> (a field sent as null is
  not modelled).
\<close>

record TestUpdate =
  tu_status :: "TestStatus option"
  tu_result :: "TestResult option"
  tu_safe_working_load :: "pyfloat option"
  tu_test_load :: "pyfloat option"
  tu_defects_found :: "pystr option"
  tu_measured_values :: "(string \<rightharpoonup> jval) option"

record TestValidation =
  tv_test_id :: nat
  tv_result :: TestResult
  tv_is_pass :: bool
  tv_validation_details :: "(string \<times> check_status) list"
  tv_recommendations :: "string option"

definition create_test :: "env \<Rightarrow> TestCreate \<Rightarrow> User \<Rightarrow> db \<Rightarrow> error + (Test \<times> db)" where
  "create_test e test_data current_user d =
     (if \<not> require_inspector current_user then Inl HTTP_403
      else
       (case lookup_asset (tc_asset_id test_data) d of
          Inl err \<Rightarrow> Inl err
        | Inr None \<Rightarrow> Inl HTTP_404
        | Inr (Some asset) \<Rightarrow>
           (if access_denied current_user asset then Inl HTTP_403
            else
             (let test =
                    \<lparr>test_id = fresh_id e,
                     test_number = generate_test_number e d,
                     t_asset_id = tc_asset_id test_data,
                     t_status = SCHEDULED,
                     result = PENDING,
                     safe_working_load = tc_safe_working_load test_data,
                     test_load = tc_test_load test_data,
                     test_load_percentage = tc_test_load_percentage test_data,
                     measured_values = Some Map.empty,
                     defects_found = None,
                     is_validated = False,
                     validated_by = None\<rparr>
              in
               (case insert_test test d of
                  Inl err \<Rightarrow> Inl err
                | Inr d1 \<Rightarrow> Inr (test, d1))))))"

text \<open>
  The asset of a field submission: the QR data, when given and matching one live asset,
  replaces the submitted asset id.
\<close>

definition submitted_asset_id :: "TestSubmit \<Rightarrow> db \<Rightarrow> error + nat option" where
  "submitted_asset_id test_data d =
     (case ts_qr_data test_data of
        None \<Rightarrow> Inr (ts_asset_id test_data)
      | Some q \<Rightarrow>
         (if q = [] then Inr (ts_asset_id test_data)
          else
           (case scalar_one_or_none
                   (filter (\<lambda>a. qr_data a = Some q \<and> \<not> is_deleted a) (assets d)) of
              Inl err \<Rightarrow> Inl err
            | Inr None \<Rightarrow> Inr (ts_asset_id test_data)
            | Inr (Some asset) \<Rightarrow> Inr (Some (asset_id asset)))))"

definition submit_test_results ::
  "list_le \<Rightarrow> env \<Rightarrow> TestSubmit \<Rightarrow> User \<Rightarrow> db \<Rightarrow> error + (TestValidation \<times> db)" where
  "submit_test_results lle e test_data current_user d =
     (if \<not> require_inspector current_user then Inl HTTP_403
      else
       (case submitted_asset_id test_data d of
          Inl err \<Rightarrow> Inl err
        | Inr None \<Rightarrow> Inl HTTP_400
        | Inr (Some aid) \<Rightarrow>
           (case lookup_asset aid d of
              Inl err \<Rightarrow> Inl err
            | Inr None \<Rightarrow> Inl HTTP_404
            | Inr (Some asset) \<Rightarrow>
               (if access_denied current_user asset then Inl HTTP_403
                else
                 (let test =
                        \<lparr>test_id = fresh_id e,
                         test_number = generate_test_number e d,
                         t_asset_id = aid,
                         t_status = COMPLETED,
                         result = PENDING,
                         safe_working_load = Some (ts_safe_working_load test_data),
                         test_load = Some (ts_test_load test_data),
                         test_load_percentage = None,
                         measured_values =
                           Some (case ts_measured_values test_data of
                                   None \<Rightarrow> Map.empty | Some m \<Rightarrow> m),
                         defects_found = ts_defects_found test_data,
                         is_validated = False,
                         validated_by = None\<rparr>
                  in
                   (case validate_test_result lle test of
                      Inl err \<Rightarrow> Inl err
                    | Inr validation_result \<Rightarrow>
                       (let test = test\<lparr>result := v_result validation_result,
                                        is_validated := True,
                                        validated_by := Some ''System Auto-Validation''\<rparr>
                        in
                         (case insert_test test d of
                            Inl err \<Rightarrow> Inl err
                          | Inr d1 \<Rightarrow>
                             (let asset = asset\<lparr>last_inspection_date := Some (utc_today e)\<rparr>
                              in
                               Inr (\<lparr>tv_test_id = test_id test,
                                     tv_result = result test,
                                     tv_is_pass = (result test = PASS),
                                     tv_validation_details = v_details validation_result,
                                     tv_recommendations =
                                       v_recommendations validation_result\<rparr>,
                                    update_asset asset d1))))))))))"

definition test_asset :: "Test \<Rightarrow> db \<Rightarrow> Asset option" where
  "test_asset t d = find (\<lambda>a. asset_id a = t_asset_id t) (assets d)"

text \<open>The loop \<^verbatim>\<open>for field, value in update_data.items(): setattr(test, field, value)\<close>.\<close>

definition set_or_keep :: "'a option \<Rightarrow> 'a \<Rightarrow> 'a" where
  "set_or_keep new old = (case new of None \<Rightarrow> old | Some v \<Rightarrow> v)"

definition apply_update :: "TestUpdate \<Rightarrow> Test \<Rightarrow> Test" where
  "apply_update u t =
     t\<lparr>t_status := set_or_keep (tu_status u) (t_status t),
       result := set_or_keep (tu_result u) (result t),
       safe_working_load :=
         (case tu_safe_working_load u of None \<Rightarrow> safe_working_load t | Some v \<Rightarrow> Some v),
       test_load := (case tu_test_load u of None \<Rightarrow> test_load t | Some v \<Rightarrow> Some v),
       defects_found :=
         (case tu_defects_found u of None \<Rightarrow> defects_found t | Some v \<Rightarrow> Some v),
       measured_values :=
         (case tu_measured_values u of None \<Rightarrow> measured_values t | Some v \<Rightarrow> Some v)\<rparr>"

definition update_test :: "nat \<Rightarrow> TestUpdate \<Rightarrow> User \<Rightarrow> db \<Rightarrow> error + (Test \<times> db)" where
  "update_test tid test_data current_user d =
     (if \<not> require_inspector current_user then Inl HTTP_403
      else case scalar_one_or_none (filter (\<lambda>t. test_id t = tid) (tests d)) of
        Inl err \<Rightarrow> Inl err
      | Inr None \<Rightarrow> Inl HTTP_404
      | Inr (Some test) \<Rightarrow>
          (case related_access_denied current_user (test_asset test d) of
             Inl err \<Rightarrow> Inl err
           | Inr True \<Rightarrow> Inl HTTP_403
           | Inr False \<Rightarrow>
               let test = apply_update test_data test
               in Inr (test, update_test_row test d)))"

definition validate_test ::
  "list_le \<Rightarrow> nat \<Rightarrow> User \<Rightarrow> db \<Rightarrow> error + (TestValidation \<times> db)" where
  "validate_test lle tid current_user d =
     (if \<not> require_inspector current_user then Inl HTTP_403
      else case scalar_one_or_none (filter (\<lambda>t. test_id t = tid) (tests d)) of
        Inl err \<Rightarrow> Inl err
      | Inr None \<Rightarrow> Inl HTTP_404
      | Inr (Some test) \<Rightarrow>
          (case related_access_denied current_user (test_asset test d) of
             Inl err \<Rightarrow> Inl err
           | Inr True \<Rightarrow> Inl HTTP_403
           | Inr False \<Rightarrow>
              (case validate_test_result lle test of
                 Inl err \<Rightarrow> Inl err
               | Inr validation_result \<Rightarrow>
                  (let test = test\<lparr>result := v_result validation_result,
                                   is_validated := True,
                                   validated_by := Some (full_name current_user)\<rparr>
                   in Inr (\<lparr>tv_test_id = test_id test,
                            tv_result = result test,
                            tv_is_pass = (result test = PASS),
                            tv_validation_details = v_details validation_result,
                            tv_recommendations = v_recommendations validation_result\<rparr>,
                           update_test_row test d)))))"

section \<open>Issuance requests interleaved at their await points\<close>

text \<open>
  \<^verbatim>\<open>generate_certificate\<close> awaits the count query of \<^verbatim>\<open>generate_certificate_number\<close>
  and, later, the flush of the new row; between the two another request may run. A step
  is one of the two for the request with the given index; a schedule is a list of steps.
\<close>

datatype step = Mint nat | Flush nat

record world =
  w_db :: db
  w_numbers :: "(nat \<times> string) list"
  w_errors :: "(nat \<times> error) list"

definition issued_certificate :: "env \<Rightarrow> nat \<Rightarrow> string \<Rightarrow> Certificate" where
  "issued_certificate e i n =
     \<lparr>certificate_id = i, c_asset_id = 0, certificate_number = n, issue_date = today e,
      expiry_date = today e + 365, c_status = ISSUED, c_test_id = None, pdf_url = None,
      pdf_hash = None, signed_by = None, inspector_name = None, c_notes = None\<rparr>"

fun run_step :: "env \<Rightarrow> step \<Rightarrow> world \<Rightarrow> world" where
  "run_step e (Mint i) w =
     w\<lparr>w_numbers := AList.update i (generate_certificate_number e (w_db w)) (w_numbers w)\<rparr>"
| "run_step e (Flush i) w =
     (case map_of (w_numbers w) i of
        None \<Rightarrow> w
      | Some n \<Rightarrow>
         (case insert_certificate (issued_certificate e i n) (w_db w) of
            Inl err \<Rightarrow> w\<lparr>w_errors := w_errors w @ [(i, err)]\<rparr>
          | Inr d \<Rightarrow> w\<lparr>w_db := d\<rparr>))"

fun run_schedule :: "env \<Rightarrow> step list \<Rightarrow> world \<Rightarrow> world" where
  "run_schedule e [] w = w"
| "run_schedule e (s # ss) w = run_schedule e ss (run_step e s w)"

section \<open>Sample inputs\<close>

definition sample_env :: env where
  "sample_env =
     \<lparr>today = 740000, utc_today = 740000, utc_month = ''202611'', utc_day = ''20261104'',
      fresh_id = 7\<rparr>"

definition empty_db :: db where
  "empty_db = \<lparr>assets = [], tests = [], certificates = []\<rparr>"

definition empty_world :: world where
  "empty_world = \<lparr>w_db = empty_db, w_numbers = [], w_errors = []\<rparr>"

definition sample_test :: Test where
  "sample_test =
     \<lparr>test_id = 1, test_number = ''TST-20261104-0001'', t_asset_id = 1,
      t_status = COMPLETED, result = PENDING,
      safe_working_load = Some (Finite 10), test_load = Some (Finite 13),
      test_load_percentage = Some (Finite 125),
      measured_values = Some Map.empty, defects_found = None,
      is_validated = False, validated_by = None\<rparr>"

definition sample_asset :: Asset where
  "sample_asset =
     \<lparr>asset_id = 1, company_id = 5, asset_name = ''Crane'', asset_code = ''CR-1'',
      qr_data = Some ''CT-1'', is_deleted = False, certificate_expiry_date = None,
      last_inspection_date = None, next_inspection_date = None\<rparr>"

definition sample_user :: User where
  "sample_user = \<lparr>user_id = 3, full_name = ''Ada'', role = INSPECTOR, u_company_id = Some 5\<rparr>"

definition sample_certificate :: Certificate where
  "sample_certificate =
     \<lparr>certificate_id = 2, c_asset_id = 1, certificate_number = ''CERT-202611-00001'',
      issue_date = 740000, expiry_date = 740365, c_status = ISSUED, c_test_id = None,
      pdf_url = None, pdf_hash = None, signed_by = Some ''Ada'',
      inspector_name = Some ''Ada'', c_notes = None\<rparr>"

definition sample_db :: db where
  "sample_db = \<lparr>assets = [sample_asset], tests = [], certificates = [sample_certificate]\<rparr>"

definition sample_request :: CertificateGenerateRequest where
  "sample_request =
     \<lparr>req_asset_id = 1, req_test_id = None, validity_days = 365,
      req_inspector_name = ''Ada'', req_notes = None\<rparr>"

definition sample_renderer :: renderer where
  "sample_renderer c a t = Some (''certificates/'' @ certificate_number c @ ''.pdf'', ''00'')"

text \<open>Comparing two lists raises, for the sample runs (none of them compares lists).\<close>

definition sample_list_le :: list_le where
  "sample_list_le xs ys = Inl TypeError"

text \<open>
  The floats nearest to 2.4 and just below 2.85 (\<^verbatim>\<open>2.8499999999999996\<close>), with no
  percentage stored.
\<close>

definition rounding_test :: Test where
  "rounding_test =
     sample_test\<lparr>safe_working_load := Some (Finite (5404319552844595 / 2 ^ 51)),
                 test_load := Some (Finite (6417629469002956 / 2 ^ 51)),
                 test_load_percentage := None\<rparr>"

definition negative_swl_test :: Test where
  "negative_swl_test =
     sample_test\<lparr>safe_working_load := Some (Finite (- 10)), test_load := Some (Finite (- 12)),
                 test_load_percentage := None\<rparr>"

definition overflow_test :: Test where
  "overflow_test =
     sample_test\<lparr>safe_working_load := Some (Finite (2 ^ 1020)),
                 test_load := Some (Finite (2 ^ 1021)),
                 test_load_percentage := None\<rparr>"

definition low_load_test :: Test where
  "low_load_test = sample_test\<lparr>test_load := Some (Finite 11)\<rparr>"

text \<open>The defect note "crack".\<close>

definition defect_test :: Test where
  "defect_test = sample_test\<lparr>defects_found := Some [99, 114, 97, 99, 107]\<rparr>"

definition four_checks_defect_test :: Test where
  "four_checks_defect_test =
     defect_test\<lparr>measured_values :=
       Some [''deflection'' \<mapsto> JNum (Finite 1), ''brake_test'' \<mapsto> JBool True]\<rparr>"

definition null_deflection_test :: Test where
  "null_deflection_test =
     sample_test\<lparr>measured_values := Some [''deflection'' \<mapsto> JNull]\<rparr>"

definition late_env :: env where
  "late_env = sample_env\<lparr>today := 740400\<rparr>"

definition sample_issuance :: "error + (CertificateResponse \<times> db)" where
  "sample_issuance =
     generate_certificate sample_renderer sample_env sample_request sample_user sample_db"

definition revoked_once :: "error + (Certificate \<times> db)" where
  "revoked_once = revoke_certificate 2 (Some ''found crack'') sample_user sample_db"

definition revoked_twice :: "error + (Certificate \<times> db)" where
  "revoked_twice =
     revoke_certificate 2 (Some ''found crack'') sample_user (snd (projr revoked_once))"

definition scheduled_db :: db where
  "scheduled_db =
     \<lparr>assets = [sample_asset], tests = [sample_test\<lparr>t_status := SCHEDULED\<rparr>],
      certificates = []\<rparr>"

definition verdict_only_update :: TestUpdate where
  "verdict_only_update =
     \<lparr>tu_status = None, tu_result = Some PASS, tu_safe_working_load = None,
      tu_test_load = None, tu_defects_found = None, tu_measured_values = None\<rparr>"

definition sample_create :: TestCreate where
  "sample_create =
     \<lparr>tc_asset_id = 1, tc_safe_working_load = Some (Finite 10),
      tc_test_load = Some (Finite 13), tc_test_load_percentage = Some (Finite 125)\<rparr>"

definition sample_submit :: TestSubmit where
  "sample_submit =
     \<lparr>ts_asset_id = Some 1, ts_qr_data = None, ts_safe_working_load = Finite 10,
      ts_test_load = Finite 13, ts_measured_values = None, ts_defects_found = None\<rparr>"

definition created :: "error + (Test \<times> db)" where
  "created = create_test sample_env sample_create sample_user sample_db"

definition submitted :: "error + (TestValidation \<times> db)" where
  "submitted = submit_test_results sample_list_le sample_env sample_submit sample_user sample_db"

definition validated_scheduled :: "error + (TestValidation \<times> db)" where
  "validated_scheduled = validate_test sample_list_le 1 sample_user scheduled_db"

definition updated_scheduled :: "error + (Test \<times> db)" where
  "updated_scheduled = update_test 1 verdict_only_update sample_user scheduled_db"

section \<open>Rounding to binary64: lemmas\<close>

text \<open>Rounding to an integer.\<close>

lemma rne_of_int: "rne (of_int k) = k"
  by (simp add: rne_def)

lemma rne_bounds: "of_int (rne y) \<le> y + 1/2 \<and> y - 1/2 \<le> of_int (rne y)"
  unfolding rne_def Let_def by (auto; linarith)

lemma rne_floor: "\<lfloor>y\<rfloor> \<le> rne y \<and> rne y \<le> \<lfloor>y\<rfloor> + 1"
  unfolding rne_def Let_def by auto

lemma rne_mono: assumes "x \<le> y" shows "rne x \<le> rne y"
proof (cases "\<lfloor>x\<rfloor> < \<lfloor>y\<rfloor>")
  case True
  then show ?thesis using rne_floor [of x] rne_floor [of y] by linarith
next
  case False
  with assms have eq: "\<lfloor>x\<rfloor> = \<lfloor>y\<rfloor>" using floor_mono [OF assms] by linarith
  with assms show ?thesis unfolding rne_def Let_def by auto
qed

lemma rne_nonneg: "0 \<le> y \<Longrightarrow> 0 \<le> rne y"
  using rne_mono [of 0 y] by (simp add: rne_def)

text \<open>The grid spacing: positive, monotone, and at most \<open>a / 2 ^ 52\<close> above the subnormals.\<close>

lemma ulp_pos: "0 < ulp a"
  by (simp add: ulp_def)

lemma bitlen_mono: "x \<le> y \<Longrightarrow> bitlen x \<le> bitlen y"
  by (simp add: bitlen_def floorlog_mono)

lemma ulp_shift_mono: "a \<le> b \<Longrightarrow> ulp_shift a \<le> ulp_shift b"
  unfolding ulp_shift_def
  by (intro nat_mono diff_right_mono bitlen_mono floor_mono) simp

lemma ulp_small: assumes "0 \<le> a" "a < 1 / 2 ^ 1022" shows "ulp a = 1 / 2 ^ 1074"
proof -
  have "a * 2 ^ 1074 < 2 ^ 52"
  proof -
    have "a * 2 ^ 1074 < 1 / 2 ^ 1022 * 2 ^ 1074" using assms by simp
    also have "\<dots> = (2::real) ^ 52" by simp
    finally show ?thesis .
  qed
  then have "\<lfloor>a * 2 ^ 1074\<rfloor> < 2 ^ 52" by (simp add: floor_less_iff)
  then have "bitlen \<lfloor>a * 2 ^ 1074\<rfloor> \<le> 52" by (simp add: bitlen_le_iff_power)
  then show ?thesis by (simp add: ulp_def ulp_shift_def)
qed

lemma ulp_bound: assumes "0 \<le> a" shows "ulp a \<le> a / 2 ^ 52 + 1 / 2 ^ 1074"
proof (cases "bitlen \<lfloor>a * 2 ^ 1074\<rfloor> \<le> 53")
  case True
  then have "ulp a = 1 / 2 ^ 1074" by (simp add: ulp_def ulp_shift_def)
  with assms show ?thesis by simp
next
  case False
  let ?n = "\<lfloor>a * 2 ^ 1074\<rfloor>"
  let ?b = "bitlen ?n"
  from False have b: "53 < ?b" by simp
  then have pos: "0 < ?n" using bitlen_eq_zero_iff [of ?n] by linarith
  from bitlen_bounds [OF pos] have "2 ^ nat (?b - 1) \<le> ?n" by simp
  then have "(2::real) ^ nat (?b - 1) \<le> of_int ?n"
    by (metis of_int_le_iff of_int_numeral of_int_power)
  also have "\<dots> \<le> a * 2 ^ 1074" by simp
  finally have le: "(2::real) ^ nat (?b - 1) \<le> a * 2 ^ 1074" .
  have "nat (?b - 1) = ulp_shift a + 52" using b by (simp add: ulp_shift_def)
  with le have "(2::real) ^ ulp_shift a * 2 ^ 52 \<le> a * 2 ^ 1074" by (simp add: power_add)
  then have "ulp a \<le> a / 2 ^ 52" by (simp add: ulp_def field_simps)
  then show ?thesis by simp
qed

lemma is_double_nonneg_repr:
  assumes "is_double d" "0 \<le> d"
  shows "d = of_int (rne (d / ulp d)) * ulp d \<and> d < 2 ^ 1024"
  using assms unfolding is_double_def round_double_def Let_def
  by (auto split: if_splits)

lemma round_double_nonneg:
  assumes "0 \<le> x"
  shows "round_double x =
     (if of_int (rne (x / ulp x)) * ulp x \<ge> (2::real) ^ 1024 then PInf
      else Finite (of_int (rne (x / ulp x)) * ulp x))"
proof (cases "x = 0")
  case True
  then show ?thesis by (simp add: round_double_def rne_def ulp_def)
next
  case False
  with assms show ?thesis by (simp add: round_double_def Let_def)
qed

text \<open>Rounding is monotone against the grid: it does not step over a float above \<open>x\<close>.\<close>

lemma round_double_le_double:
  assumes x: "0 \<le> x" and le: "x \<le> d" and d: "is_double d"
  shows "\<exists>r. round_double x = Finite r \<and> 0 \<le> r \<and> r \<le> d"
proof -
  from x le have d0: "0 \<le> d" by simp
  let ?md = "rne (d / ulp d)"
  from is_double_nonneg_repr [OF d d0]
  have rep: "d = of_int ?md * ulp d" and fin: "d < 2 ^ 1024" by simp_all
  from ulp_shift_mono [OF le] obtain k where k: "ulp_shift d = ulp_shift x + k"
    using le_Suc_ex by blast
  have ud: "ulp d = 2 ^ k * ulp x" by (simp add: ulp_def k power_add)
  have "d / ulp x = of_int (?md * 2 ^ k)"
  proof -
    have "d / ulp x = (of_int ?md * ulp d) / ulp x" using rep by simp
    also have "\<dots> = of_int ?md * 2 ^ k" using ulp_pos [of x] by (simp add: ud)
    finally show ?thesis by simp
  qed
  moreover have "x / ulp x \<le> d / ulp x"
    using le ulp_pos [of x] by (simp add: divide_right_mono)
  ultimately have "rne (x / ulp x) \<le> ?md * 2 ^ k"
    using rne_mono [of "x / ulp x" "d / ulp x"] by (simp only: rne_of_int)
  then have "of_int (rne (x / ulp x)) \<le> (of_int (?md * 2 ^ k) :: real)"
    by (simp only: of_int_le_iff)
  then have "of_int (rne (x / ulp x)) * ulp x \<le> of_int (?md * 2 ^ k) * ulp x"
    using ulp_pos [of x] by (simp add: mult_right_mono)
  also have "\<dots> = of_int ?md * ulp d" by (simp add: ud)
  also have "\<dots> = d" using rep by simp
  finally have r_le: "of_int (rne (x / ulp x)) * ulp x \<le> d" .
  have "0 \<le> x / ulp x" using x ulp_pos [of x] by simp
  then have "0 \<le> rne (x / ulp x)" by (rule rne_nonneg)
  then have r0: "0 \<le> of_int (rne (x / ulp x)) * ulp x"
    using ulp_pos [of x] by simp
  from r_le fin have "\<not> of_int (rne (x / ulp x)) * ulp x \<ge> (2::real) ^ 1024" by linarith
  then show ?thesis using r_le r0 by (simp add: round_double_nonneg [OF x])
qed

text \<open>The relative error of one rounding is at most \<open>2 ^ -53\<close>, half a subnormal step aside.\<close>

lemma round_double_upper:
  assumes "0 \<le> x" "round_double x = Finite r"
  shows "r \<le> x * (1 + 1 / 2 ^ 53) + 1 / 2 ^ 1075"
proof -
  from assms have r: "r = of_int (rne (x / ulp x)) * ulp x"
    by (simp add: round_double_nonneg split: if_splits)
  have "of_int (rne (x / ulp x)) \<le> x / ulp x + 1/2" using rne_bounds [of "x / ulp x"] by simp
  then have "r \<le> (x / ulp x + 1/2) * ulp x"
    unfolding r using ulp_pos [of x] by (simp add: mult_right_mono)
  also have "\<dots> = x + ulp x / 2" using ulp_pos [of x] by (simp add: field_simps)
  also have "\<dots> \<le> x + (x / 2 ^ 52 + 1 / 2 ^ 1074) / 2"
    using ulp_bound [OF assms(1)] by simp
  also have "\<dots> = x * (1 + 1 / 2 ^ 53) + 1 / 2 ^ 1075" by (simp add: field_simps)
  finally show ?thesis .
qed

text \<open>Below the normal range the grid is \<open>2 ^ -1074\<close> and a grid point is its own rounding.\<close>

lemma round_double_subnormal_exact:
  assumes "0 \<le> x" "x < 1 / 2 ^ 1022" "x * 2 ^ 1074 = of_int j"
  shows "round_double x = Finite x"
proof -
  have u: "ulp x = 1 / 2 ^ 1074" by (rule ulp_small [OF assms(1,2)])
  have "x / ulp x = of_int j" using assms(3) by (simp add: u)
  then have "of_int (rne (x / ulp x)) * ulp x = x"
    using assms(3) by (simp add: rne_of_int u field_simps)
  moreover have "x < 2 ^ 1024"
  proof -
    have "(1::real) / 2 ^ 1022 \<le> 1" by simp
    also have "(1::real) \<le> 2 ^ 1024" by simp
    finally show ?thesis using assms(2) by linarith
  qed
  ultimately show ?thesis by (simp add: round_double_nonneg [OF assms(1)])
qed

lemma is_double_subnormal_grid:
  assumes "is_double s" "0 \<le> s" "s < 1 / 2 ^ 1022"
  shows "\<exists>j. s * 2 ^ 1074 = of_int j"
proof -
  have u: "ulp s = 1 / 2 ^ 1074" by (rule ulp_small [OF assms(2,3)])
  from is_double_nonneg_repr [OF assms(1,2)]
  have "s = of_int (rne (s / ulp s)) * ulp s" by simp
  then have "s * 2 ^ 1074 = of_int (rne (s / ulp s))" by (simp add: u field_simps)
  then show ?thesis by blast
qed

lemma round_double_nonpos:
  assumes "x \<le> 0"
  shows "round_double x = NInf \<or> (\<exists>r. round_double x = Finite r \<and> r \<le> 0)"
proof -
  have "0 \<le> \<bar>x\<bar> / ulp \<bar>x\<bar>" using ulp_pos [of "\<bar>x\<bar>"] by simp
  then have "0 \<le> rne (\<bar>x\<bar> / ulp \<bar>x\<bar>)" by (rule rne_nonneg)
  then have "0 \<le> of_int (rne (\<bar>x\<bar> / ulp \<bar>x\<bar>)) * ulp \<bar>x\<bar>"
    using ulp_pos [of "\<bar>x\<bar>"] by simp
  moreover have "x = 0 \<Longrightarrow> of_int (rne (\<bar>x\<bar> / ulp \<bar>x\<bar>)) * ulp \<bar>x\<bar> = 0"
    by (simp add: rne_def)
  ultimately show ?thesis using assms
    by (cases "x = 0") (auto simp: round_double_def Let_def)
qed

lemma round_double_bounded:
  assumes x: "0 \<le> x" and b: "x * (1 + 1 / 2 ^ 53) + 1 / 2 ^ 1075 < 2 ^ 1024"
  shows "\<exists>r. round_double x = Finite r \<and> 0 \<le> r \<and> r \<le> x * (1 + 1 / 2 ^ 53) + 1 / 2 ^ 1075"
proof -
  let ?r = "of_int (rne (x / ulp x)) * ulp x"
  have "of_int (rne (x / ulp x)) \<le> x / ulp x + 1/2" using rne_bounds [of "x / ulp x"] by simp
  then have "?r \<le> (x / ulp x + 1/2) * ulp x"
    using ulp_pos [of x] by (simp add: mult_right_mono)
  also have "\<dots> = x + ulp x / 2" using ulp_pos [of x] by (simp add: field_simps)
  also have "\<dots> \<le> x + (x / 2 ^ 52 + 1 / 2 ^ 1074) / 2"
    using ulp_bound [OF x] by simp
  also have "\<dots> = x * (1 + 1 / 2 ^ 53) + 1 / 2 ^ 1075" by (simp add: field_simps)
  finally have le: "?r \<le> x * (1 + 1 / 2 ^ 53) + 1 / 2 ^ 1075" .
  have "0 \<le> x / ulp x" using x ulp_pos [of x] by simp
  then have "0 \<le> rne (x / ulp x)" by (rule rne_nonneg)
  then have r0: "0 \<le> ?r" using ulp_pos [of x] by simp
  from le b have "\<not> ?r \<ge> 2 ^ 1024" by linarith
  then show ?thesis using le r0 by (simp add: round_double_nonneg [OF x])
qed

text \<open>Evaluating a rounding from its grid spacing and its integer significand.\<close>

lemma rne_eqI: "of_int m - 1/2 < y \<Longrightarrow> y < of_int m + 1/2 \<Longrightarrow> rne y = m"
  unfolding rne_def Let_def by (auto; linarith)

lemma rne_tie_even: "y = of_int m + 1/2 \<Longrightarrow> even m \<Longrightarrow> rne y = m"
proof -
  assume y: "y = of_int m + 1/2" and e: "even m"
  have f: "\<lfloor>y\<rfloor> = m" unfolding y by linarith
  show ?thesis unfolding rne_def Let_def f using y e by simp
qed

lemma ulp_eqI:
  assumes "2 ^ (k + 52) \<le> a * 2 ^ 1074" "a * 2 ^ 1074 < 2 ^ (k + 53)"
  shows "ulp a = 2 ^ k / 2 ^ 1074"
proof -
  let ?n = "\<lfloor>a * 2 ^ 1074\<rfloor>"
  have lo: "2 ^ (k + 52) \<le> ?n"
    using assms(1) by (simp add: le_floor_iff)
  have hi: "?n < 2 ^ (k + 53)"
    using assms(2) by (simp add: floor_less_iff)
  have n1: "nat (int (k + 53)) = k + 53" and n2: "nat (int (k + 53)) - 1 = k + 52"
    by simp_all
  have "bitlen ?n \<le> int (k + 53)"
    unfolding bitlen_le_iff_power n1 using hi by simp
  moreover have "int (k + 53) \<le> bitlen ?n"
    unfolding bitlen_ge_iff_power n2 using lo by simp
  ultimately have "bitlen ?n = int (k + 53)" by simp
  then show ?thesis by (simp add: ulp_def ulp_shift_def)
qed

lemma round_double_eval:
  assumes "0 \<le> x" "ulp x = q" "rne (x / q) = m" "of_int m * q < 2 ^ 1024"
  shows "round_double x = Finite (of_int m * q)"
  using assms by (simp add: round_double_nonneg)

lemma round_double_eval_inf:
  assumes "0 \<le> x" "ulp x = q" "rne (x / q) = m" "2 ^ 1024 \<le> of_int m * q"
  shows "round_double x = PInf"
  using assms by (simp add: round_double_nonneg)

lemma round_double_minus:
  assumes "0 < x" "round_double x = Finite r"
  shows "round_double (- x) = Finite (- r)"
  using assms by (auto simp: round_double_def Let_def split: if_splits)

lemma c95_value: "c95 = Finite (8556839292003942 / 2 ^ 53)"
proof -
  have u: "ulp (95 / 100) = 2 ^ 1021 / 2 ^ 1074"
    by (rule ulp_eqI) simp_all
  have r: "rne (95 / 100 / (2 ^ 1021 / 2 ^ 1074)) = 8556839292003942"
    by (rule rne_eqI) simp_all
  have "round_double (95 / 100) = Finite (of_int 8556839292003942 * (2 ^ 1021 / 2 ^ 1074))"
    by (rule round_double_eval [OF _ u r]) simp_all
  then show ?thesis by (simp add: c95_def)
qed

lemma round_double_nonneg_cases:
  assumes "0 \<le> x"
  shows "round_double x = PInf \<or> (\<exists>r. round_double x = Finite r \<and> 0 \<le> r \<and> r < 2 ^ 1024)"
proof -
  have "0 \<le> x / ulp x" using assms ulp_pos [of x] by simp
  then have "0 \<le> rne (x / ulp x)" by (rule rne_nonneg)
  then have "0 \<le> of_int (rne (x / ulp x)) * ulp x" using ulp_pos [of x] by simp
  then show ?thesis unfolding round_double_nonneg [OF assms] by (simp del: power_numeral)
qed

text \<open>
  The computed threshold \<^verbatim>\<open>((s * 125) / 100) * 0.95\<close> of a non-negative float \<open>s\<close> does not
  exceed a float that is at least \<open>1.25 * s\<close>, unless \<^verbatim>\<open>s * 125\<close> overflows: the three
  roundings cost less than the 5% tolerance; for tiny loads the first product is exact.
\<close>

lemma threshold_le:
  assumes s: "is_double s" and s0: "0 \<le> s" and L: "is_double L"
    and h: "5 / 4 * s \<le> L"
    and nov: "fmul (Finite s) (Finite 125) \<noteq> PInf"
  shows "fge (Finite L) (fmul (fdiv (fmul (Finite s) (Finite 125)) (Finite 100)) c95)"
proof -
  let ?c = "8556839292003942 / 2 ^ 53 :: real"
  have c0: "0 \<le> ?c" and c1: "?c \<le> 1" by simp_all
  from s0 h have L0: "0 \<le> L" by linarith
  have goal: "fge (Finite L) (fmul (Finite b) c95)" if b0: "0 \<le> b" and bc: "b * ?c \<le> L" for b
  proof -
    have "0 \<le> b * ?c" using b0 by simp
    from round_double_le_double [OF this bc L]
    obtain r where "round_double (b * ?c) = Finite r" "r \<le> L" by blast
    then show ?thesis by (simp add: c95_value fge_def)
  qed
  show ?thesis
  proof (cases "L < 1 / 2 ^ 1030")
    case True
    have s_small: "s < 1 / 2 ^ 1022"
    proof -
      have "s \<le> L" using h s0 by linarith
      also have "L < 1 / 2 ^ 1030" by (rule True)
      also have "(1::real) / 2 ^ 1030 \<le> 1 / 2 ^ 1022" by simp
      finally show ?thesis .
    qed
    from is_double_subnormal_grid [OF s s0 s_small]
    obtain j where j: "s * 2 ^ 1074 = of_int j" by blast
    have a_small: "s * 125 < 1 / 2 ^ 1022"
    proof -
      have "s * 125 \<le> 100 * L" using h by linarith
      also have "\<dots> < 100 * (1 / 2 ^ 1030)" using True by simp
      also have "\<dots> \<le> (1::real) / 2 ^ 1022" by simp
      finally show ?thesis .
    qed
    have "s * 125 * 2 ^ 1074 = of_int (j * 125)" using j by simp
    from round_double_subnormal_exact [OF _ a_small this] s0
    have a: "round_double (s * 125) = Finite (s * 125)" by simp
    have "s * 125 / 100 \<le> L" using h by linarith
    from round_double_le_double [OF _ this L] s0
    obtain b where b: "round_double (s * 125 / 100) = Finite b" and b0: "0 \<le> b"
      and bL: "b \<le> L"
      by auto
    have "b * ?c \<le> b * 1" using b0 c1 by (intro mult_left_mono) simp_all
    with bL have "b * ?c \<le> L" by simp
    from goal [OF b0 this] show ?thesis by (simp only: fmul.simps fdiv.simps a b)
  next
    case False
    then have Lbig: "1 / 2 ^ 1030 \<le> L" by simp
    have x0: "0 \<le> s * 125" using s0 by simp
    from nov round_double_nonneg_cases [OF x0]
    obtain a where a: "round_double (s * 125) = Finite a" and a0: "0 \<le> a"
      and a_fin: "a < 2 ^ 1024"
      by auto
    from round_double_upper [OF x0 a]
    have a_le: "a \<le> s * 125 * (1 + 1 / 2 ^ 53) + 1 / 2 ^ 1075" .
    have y0: "0 \<le> a / 100" using a0 by simp
    have "a / 100 * (1 + 1 / 2 ^ 53) + 1 / 2 ^ 1075 < 2 ^ 1024"
    proof -
      have "a / 100 * (1 + 1 / 2 ^ 53) + 1 / 2 ^ 1075 \<le> a / 100 * 2 + 1"
        using a0 by (intro add_mono mult_left_mono) simp_all
      also have "\<dots> < 2 ^ 1024" using a_fin by simp
      finally show ?thesis .
    qed
    from round_double_bounded [OF y0 this]
    obtain b where b: "round_double (a / 100) = Finite b" and b0: "0 \<le> b"
      and b_le: "b \<le> a / 100 * (1 + 1 / 2 ^ 53) + 1 / 2 ^ 1075"
      by blast
    have bc: "b * ?c \<le> L"
      using b_le a_le h Lbig b0 s0 by (simp add: field_simps)
    from goal [OF b0 bc] show ?thesis by (simp only: fmul.simps fdiv.simps a b)
  qed
qed

text \<open>The roundings that the sample runs and the percentages of up to six checks need.\<close>

lemma rd_sample_a: "round_double 1250 = Finite 1250"
proof -
  have u: "ulp 1250 = 2 ^ 1032 / 2 ^ 1074" by (rule ulp_eqI) simp_all
  have r: "rne (1250 / (2 ^ 1032 / 2 ^ 1074)) = 5497558138880000" by (rule rne_eqI) simp_all
  have "round_double 1250 = Finite (of_int 5497558138880000 * (2 ^ 1032 / 2 ^ 1074))"
    by (rule round_double_eval [OF _ u r]) simp_all
  then show ?thesis by simp
qed

lemma rd_sample_b: "round_double (25 / 2) = Finite (25 / 2)"
proof -
  have u: "ulp (25 / 2) = 2 ^ 1025 / 2 ^ 1074" by (rule ulp_eqI) simp_all
  have r: "rne (25 / 2 / (2 ^ 1025 / 2 ^ 1074)) = 7036874417766400" by (rule rne_eqI) simp_all
  have "round_double (25 / 2) = Finite (of_int 7036874417766400 * (2 ^ 1025 / 2 ^ 1074))"
    by (rule round_double_eval [OF _ u r]) simp_all
  then show ?thesis by simp
qed

lemma rd_sample_c: "round_double (106960491150049275 / 9007199254740992) = Finite (95 / 8)"
proof -
  have u: "ulp (106960491150049275 / 9007199254740992) = 2 ^ 1025 / 2 ^ 1074"
    by (rule ulp_eqI) simp_all
  have r: "rne (106960491150049275 / 9007199254740992 / (2 ^ 1025 / 2 ^ 1074))
          = 6685030696878080"
    by (rule rne_eqI) simp_all
  have "round_double (106960491150049275 / 9007199254740992)
          = Finite (of_int 6685030696878080 * (2 ^ 1025 / 2 ^ 1074))"
    by (rule round_double_eval [OF _ u r]) simp_all
  then show ?thesis by simp
qed

lemma rd_rounding_a: "round_double (675539944105574375 / 2251799813685248) = Finite 300"
proof -
  have u: "ulp (675539944105574375 / 2251799813685248) = 2 ^ 1030 / 2 ^ 1074"
    by (rule ulp_eqI) simp_all
  have r: "rne (675539944105574375 / 2251799813685248 / (2 ^ 1030 / 2 ^ 1074))
          = 5277655813324800"
    by (rule rne_eqI) simp_all
  have "round_double (675539944105574375 / 2251799813685248)
          = Finite (of_int 5277655813324800 * (2 ^ 1030 / 2 ^ 1074))"
    by (rule round_double_eval [OF _ u r]) simp_all
  then show ?thesis by simp
qed

lemma rd_rounding_b: "round_double 3 = Finite 3"
proof -
  have u: "ulp 3 = 2 ^ 1023 / 2 ^ 1074" by (rule ulp_eqI) simp_all
  have r: "rne (3 / (2 ^ 1023 / 2 ^ 1074)) = 6755399441055744" by (rule rne_eqI) simp_all
  have "round_double 3 = Finite (of_int 6755399441055744 * (2 ^ 1023 / 2 ^ 1074))"
    by (rule round_double_eval [OF _ u r]) simp_all
  then show ?thesis by simp
qed

lemma rd_rounding_c:
  "round_double (12835258938005913 / 4503599627370496)
     = Finite (1604407367250739 / 562949953421312)"
proof -
  have u: "ulp (12835258938005913 / 4503599627370496) = 2 ^ 1023 / 2 ^ 1074"
    by (rule ulp_eqI) simp_all
  have r: "rne (12835258938005913 / 4503599627370496 / (2 ^ 1023 / 2 ^ 1074))
          = 6417629469002956"
    by (rule rne_tie_even) simp_all
  have "round_double (12835258938005913 / 4503599627370496)
          = Finite (of_int 6417629469002956 * (2 ^ 1023 / 2 ^ 1074))"
    by (rule round_double_eval [OF _ u r]) simp_all
  then show ?thesis by simp
qed

lemma rd_neg_negative_a: "round_double (- 1250) = Finite (- 1250)"
  using round_double_minus [OF _ rd_sample_a] by simp

lemma rd_neg_negative_b: "round_double (- (25 / 2)) = Finite (- (25 / 2))"
  using round_double_minus [OF _ rd_sample_b] by simp

lemma rd_neg_negative_c:
  "round_double (- (106960491150049275 / 9007199254740992))
     = Finite (- (95 / 8))"
  using round_double_minus [OF _ rd_sample_c] by simp

lemma rd_overflow: "round_double (2 ^ 1020 * 125) = PInf"
proof -
  have u: "ulp (2 ^ 1020 * 125) = 2 ^ 2048 / 2 ^ 1074" by (rule ulp_eqI) simp_all
  have r: "rne (2 ^ 1020 * 125 / (2 ^ 2048 / 2 ^ 1074)) = 8796093022208000"
    by (rule rne_eqI) simp_all
  have "round_double (2 ^ 1020 * 125) = PInf"
    by (rule round_double_eval_inf [OF _ u r]) simp_all
  then show ?thesis by simp
qed

lemma rd_q_1_1: "round_double 1 = Finite 1"
proof -
  have u: "ulp 1 = 2 ^ 1022 / 2 ^ 1074" by (rule ulp_eqI) simp_all
  have r: "rne (1 / (2 ^ 1022 / 2 ^ 1074)) = 4503599627370496" by (rule rne_eqI) simp_all
  have "round_double 1 = Finite (of_int 4503599627370496 * (2 ^ 1022 / 2 ^ 1074))"
    by (rule round_double_eval [OF _ u r]) simp_all
  then show ?thesis by simp
qed

lemma rd_pct_1_1: "round_double 100 = Finite 100"
proof -
  have u: "ulp 100 = 2 ^ 1028 / 2 ^ 1074" by (rule ulp_eqI) simp_all
  have r: "rne (100 / (2 ^ 1028 / 2 ^ 1074)) = 7036874417766400" by (rule rne_eqI) simp_all
  have "round_double 100 = Finite (of_int 7036874417766400 * (2 ^ 1028 / 2 ^ 1074))"
    by (rule round_double_eval [OF _ u r]) simp_all
  then show ?thesis by simp
qed

lemma rd_q_1_2: "round_double (1 / 2) = Finite (1 / 2)"
proof -
  have u: "ulp (1 / 2) = 2 ^ 1021 / 2 ^ 1074" by (rule ulp_eqI) simp_all
  have r: "rne (1 / 2 / (2 ^ 1021 / 2 ^ 1074)) = 4503599627370496" by (rule rne_eqI) simp_all
  have "round_double (1 / 2) = Finite (of_int 4503599627370496 * (2 ^ 1021 / 2 ^ 1074))"
    by (rule round_double_eval [OF _ u r]) simp_all
  then show ?thesis by simp
qed

lemma rd_pct_1_2: "round_double 50 = Finite 50"
proof -
  have u: "ulp 50 = 2 ^ 1027 / 2 ^ 1074" by (rule ulp_eqI) simp_all
  have r: "rne (50 / (2 ^ 1027 / 2 ^ 1074)) = 7036874417766400" by (rule rne_eqI) simp_all
  have "round_double 50 = Finite (of_int 7036874417766400 * (2 ^ 1027 / 2 ^ 1074))"
    by (rule round_double_eval [OF _ u r]) simp_all
  then show ?thesis by simp
qed

lemma rd_q_2_3: "round_double (2 / 3) = Finite (6004799503160661 / 9007199254740992)"
proof -
  have u: "ulp (2 / 3) = 2 ^ 1021 / 2 ^ 1074" by (rule ulp_eqI) simp_all
  have r: "rne (2 / 3 / (2 ^ 1021 / 2 ^ 1074)) = 6004799503160661" by (rule rne_eqI) simp_all
  have "round_double (2 / 3) = Finite (of_int 6004799503160661 * (2 ^ 1021 / 2 ^ 1074))"
    by (rule round_double_eval [OF _ u r]) simp_all
  then show ?thesis by simp
qed

lemma rd_pct_2_3:
  "round_double (150119987579016525 / 2251799813685248)
     = Finite (2345624805922133 / 35184372088832)"
proof -
  have u: "ulp (150119987579016525 / 2251799813685248) = 2 ^ 1028 / 2 ^ 1074"
    by (rule ulp_eqI) simp_all
  have r: "rne (150119987579016525 / 2251799813685248 / (2 ^ 1028 / 2 ^ 1074))
          = 4691249611844266"
    by (rule rne_eqI) simp_all
  have "round_double (150119987579016525 / 2251799813685248)
          = Finite (of_int 4691249611844266 * (2 ^ 1028 / 2 ^ 1074))"
    by (rule round_double_eval [OF _ u r]) simp_all
  then show ?thesis by simp
qed

lemma rd_q_3_4: "round_double (3 / 4) = Finite (3 / 4)"
proof -
  have u: "ulp (3 / 4) = 2 ^ 1021 / 2 ^ 1074" by (rule ulp_eqI) simp_all
  have r: "rne (3 / 4 / (2 ^ 1021 / 2 ^ 1074)) = 6755399441055744" by (rule rne_eqI) simp_all
  have "round_double (3 / 4) = Finite (of_int 6755399441055744 * (2 ^ 1021 / 2 ^ 1074))"
    by (rule round_double_eval [OF _ u r]) simp_all
  then show ?thesis by simp
qed

lemma rd_pct_3_4: "round_double 75 = Finite 75"
proof -
  have u: "ulp 75 = 2 ^ 1028 / 2 ^ 1074" by (rule ulp_eqI) simp_all
  have r: "rne (75 / (2 ^ 1028 / 2 ^ 1074)) = 5277655813324800" by (rule rne_eqI) simp_all
  have "round_double 75 = Finite (of_int 5277655813324800 * (2 ^ 1028 / 2 ^ 1074))"
    by (rule round_double_eval [OF _ u r]) simp_all
  then show ?thesis by simp
qed

lemma rd_q_4_5: "round_double (4 / 5) = Finite (3602879701896397 / 4503599627370496)"
proof -
  have u: "ulp (4 / 5) = 2 ^ 1021 / 2 ^ 1074" by (rule ulp_eqI) simp_all
  have r: "rne (4 / 5 / (2 ^ 1021 / 2 ^ 1074)) = 7205759403792794" by (rule rne_eqI) simp_all
  have "round_double (4 / 5) = Finite (of_int 7205759403792794 * (2 ^ 1021 / 2 ^ 1074))"
    by (rule round_double_eval [OF _ u r]) simp_all
  then show ?thesis by simp
qed

lemma rd_pct_4_5: "round_double (90071992547409925 / 1125899906842624) = Finite 80"
proof -
  have u: "ulp (90071992547409925 / 1125899906842624) = 2 ^ 1028 / 2 ^ 1074"
    by (rule ulp_eqI) simp_all
  have r: "rne (90071992547409925 / 1125899906842624 / (2 ^ 1028 / 2 ^ 1074))
          = 5629499534213120"
    by (rule rne_eqI) simp_all
  have "round_double (90071992547409925 / 1125899906842624)
          = Finite (of_int 5629499534213120 * (2 ^ 1028 / 2 ^ 1074))"
    by (rule round_double_eval [OF _ u r]) simp_all
  then show ?thesis by simp
qed

lemma rd_q_5_6: "round_double (5 / 6) = Finite (7505999378950827 / 9007199254740992)"
proof -
  have u: "ulp (5 / 6) = 2 ^ 1021 / 2 ^ 1074" by (rule ulp_eqI) simp_all
  have r: "rne (5 / 6 / (2 ^ 1021 / 2 ^ 1074)) = 7505999378950827" by (rule rne_eqI) simp_all
  have "round_double (5 / 6) = Finite (of_int 7505999378950827 * (2 ^ 1021 / 2 ^ 1074))"
    by (rule round_double_eval [OF _ u r]) simp_all
  then show ?thesis by simp
qed

lemma rd_pct_5_6:
  "round_double (187649984473770675 / 2251799813685248)
     = Finite (2932031007402667 / 35184372088832)"
proof -
  have u: "ulp (187649984473770675 / 2251799813685248) = 2 ^ 1028 / 2 ^ 1074"
    by (rule ulp_eqI) simp_all
  have r: "rne (187649984473770675 / 2251799813685248 / (2 ^ 1028 / 2 ^ 1074))
          = 5864062014805334"
    by (rule rne_eqI) simp_all
  have "round_double (187649984473770675 / 2251799813685248)
          = Finite (of_int 5864062014805334 * (2 ^ 1028 / 2 ^ 1074))"
    by (rule round_double_eval [OF _ u r]) simp_all
  then show ?thesis by simp
qed

lemma rd_ten: "round_double 10 = Finite 10"
proof -
  have u: "ulp 10 = 2 ^ 1025 / 2 ^ 1074" by (rule ulp_eqI) simp_all
  have r: "rne (10 / (2 ^ 1025 / 2 ^ 1074)) = 5629499534213120" by (rule rne_eqI) simp_all
  have "round_double 10 = Finite (of_int 5629499534213120 * (2 ^ 1025 / 2 ^ 1074))"
    by (rule round_double_eval [OF _ u r]) simp_all
  then show ?thesis by simp
qed

lemma rd_thirteen: "round_double 13 = Finite 13"
proof -
  have u: "ulp 13 = 2 ^ 1025 / 2 ^ 1074" by (rule ulp_eqI) simp_all
  have r: "rne (13 / (2 ^ 1025 / 2 ^ 1074)) = 7318349394477056" by (rule rne_eqI) simp_all
  have "round_double 13 = Finite (of_int 7318349394477056 * (2 ^ 1025 / 2 ^ 1074))"
    by (rule round_double_eval [OF _ u r]) simp_all
  then show ?thesis by simp
qed

lemma rd_eleven: "round_double 11 = Finite 11"
proof -
  have u: "ulp 11 = 2 ^ 1025 / 2 ^ 1074" by (rule ulp_eqI) simp_all
  have r: "rne (11 / (2 ^ 1025 / 2 ^ 1074)) = 6192449487634432" by (rule rne_eqI) simp_all
  have "round_double 11 = Finite (of_int 6192449487634432 * (2 ^ 1025 / 2 ^ 1074))"
    by (rule round_double_eval [OF _ u r]) simp_all
  then show ?thesis by simp
qed

lemma rd_big_swl: "round_double (2 ^ 1020) = Finite (2 ^ 1020)"
proof -
  have u: "ulp (2 ^ 1020) = 2 ^ 2042 / 2 ^ 1074" by (rule ulp_eqI) simp_all
  have r: "rne (2 ^ 1020 / (2 ^ 2042 / 2 ^ 1074)) = 4503599627370496"
    by (rule rne_eqI) simp_all
  have "round_double (2 ^ 1020) = Finite (of_int 4503599627370496 * (2 ^ 2042 / 2 ^ 1074))"
    by (rule round_double_eval [OF _ u r]) simp_all
  then show ?thesis by simp
qed

lemma rd_big_load: "round_double (2 ^ 1021) = Finite (2 ^ 1021)"
proof -
  have u: "ulp (2 ^ 1021) = 2 ^ 2043 / 2 ^ 1074" by (rule ulp_eqI) simp_all
  have r: "rne (2 ^ 1021 / (2 ^ 2043 / 2 ^ 1074)) = 4503599627370496"
    by (rule rne_eqI) simp_all
  have "round_double (2 ^ 1021) = Finite (of_int 4503599627370496 * (2 ^ 2043 / 2 ^ 1074))"
    by (rule round_double_eval [OF _ u r]) simp_all
  then show ?thesis by simp
qed

lemma rd_twelve: "round_double 12 = Finite 12"
proof -
  have u: "ulp 12 = 2 ^ 1025 / 2 ^ 1074" by (rule ulp_eqI) simp_all
  have r: "rne (12 / (2 ^ 1025 / 2 ^ 1074)) = 6755399441055744" by (rule rne_eqI) simp_all
  have "round_double 12 = Finite (of_int 6755399441055744 * (2 ^ 1025 / 2 ^ 1074))"
    by (rule round_double_eval [OF _ u r]) simp_all
  then show ?thesis by simp
qed

lemma rd_swl_24:
  "round_double (5404319552844595 / 2251799813685248)
     = Finite (5404319552844595 / 2251799813685248)"
proof -
  have u: "ulp (5404319552844595 / 2251799813685248) = 2 ^ 1023 / 2 ^ 1074"
    by (rule ulp_eqI) simp_all
  have r: "rne (5404319552844595 / 2251799813685248 / (2 ^ 1023 / 2 ^ 1074))
          = 5404319552844595"
    by (rule rne_eqI) simp_all
  have "round_double (5404319552844595 / 2251799813685248)
          = Finite (of_int 5404319552844595 * (2 ^ 1023 / 2 ^ 1074))"
    by (rule round_double_eval [OF _ u r]) simp_all
  then show ?thesis by simp
qed

lemma rd_load_285:
  "round_double (1604407367250739 / 562949953421312)
     = Finite (1604407367250739 / 562949953421312)"
proof -
  have u: "ulp (1604407367250739 / 562949953421312) = 2 ^ 1023 / 2 ^ 1074"
    by (rule ulp_eqI) simp_all
  have r: "rne (1604407367250739 / 562949953421312 / (2 ^ 1023 / 2 ^ 1074)) = 6417629469002956"
    by (rule rne_eqI) simp_all
  have "round_double (1604407367250739 / 562949953421312)
          = Finite (of_int 6417629469002956 * (2 ^ 1023 / 2 ^ 1074))"
    by (rule round_double_eval [OF _ u r]) simp_all
  then show ?thesis by simp
qed

section \<open>The validator: the entries of a run\<close>

lemmas vstate_defs = set_detail_def count_check_def passed_def recommend_def

text \<open>What one check adds to \<^verbatim>\<open>details\<close> and to the counters.\<close>

lemma update_fresh: "k \<notin> fst ` set al \<Longrightarrow> AList.update k v al = al @ [(k, v)]"
  by (induction al) auto

lemma add_pass:
  assumes "consistent s" "k \<notin> fst ` set (details s)"
  shows "details (passed (set_detail k Pass (count_check s))) = details s @ [(k, Pass)] \<and>
         consistent (passed (set_detail k Pass (count_check s)))"
  using assms by (simp add: consistent_def vstate_defs update_fresh)

lemma add_other:
  assumes "consistent s" "k \<notin> fst ` set (details s)" "st \<noteq> Pass"
  shows "details (recommend a (set_detail k st (count_check s))) = details s @ [(k, st)] \<and>
         consistent (recommend a (set_detail k st (count_check s)))"
  using assms by (simp add: consistent_def vstate_defs update_fresh)

lemma load_check_step:
  "details (load_check t init_vstate) =
     [(''load_check'',
       if fge (float_or (test_load t) (Finite 0)) (fmul (expected_test_load t) c95)
       then Pass else Fail)] \<and>
   consistent (load_check t init_vstate)"
proof -
  have c: "consistent init_vstate" and f: "''load_check'' \<notin> fst ` set (details init_vstate)"
    by (simp_all add: consistent_def init_vstate_def)
  have d: "details init_vstate = []" by (simp add: init_vstate_def)
  show ?thesis
    using add_pass [OF c f] add_other [OF c f, of Fail]
    by (simp add: load_check_def Let_def d)
qed

lemma visual_check_step:
  assumes "consistent s" "''visual_check'' \<notin> fst ` set (details s)"
  shows "details (visual_check t s) =
           details s @ [(''visual_check'', if has_defects t then Conditional else Pass)] \<and>
         consistent (visual_check t s)"
  using add_pass [OF assms] add_other [OF assms, of Conditional]
  by (simp add: visual_check_def Let_def)

lemma compared_check_step:
  assumes "compared_check lle name advice v limit s = Inr s'"
    and "consistent s" "name \<notin> fst ` set (details s)"
  shows "\<exists>es. details s' = details s @ es \<and> optional_entry name es \<and> consistent s'"
  using assms(1) add_pass [OF assms(2,3)] add_other [OF assms(2,3), of Fail advice]
  by (auto simp: compared_check_def Let_def optional_entry_def split: sum.splits if_splits)

lemma deflection_check_step:
  assumes "deflection_check lle t s = Inr s'"
    and "consistent s" "''deflection_check'' \<notin> fst ` set (details s)"
  shows "\<exists>es. details s' = details s @ es \<and> optional_entry ''deflection_check'' es \<and>
              consistent s'"
proof (cases "measured_of t ''deflection''")
  case None
  with assms show ?thesis by (simp add: deflection_check_def optional_entry_def)
next
  case (Some v)
  with assms(1) show ?thesis
    using compared_check_step [OF _ assms(2,3)] by (simp add: deflection_check_def)
qed

lemma deformation_check_step:
  assumes "deformation_check lle t s = Inr s'"
    and "consistent s" "''deformation_check'' \<notin> fst ` set (details s)"
  shows "\<exists>es. details s' = details s @ es \<and> optional_entry ''deformation_check'' es \<and>
              consistent s'"
proof (cases "measured_of t ''permanent_deformation''")
  case None
  with assms show ?thesis by (simp add: deformation_check_def optional_entry_def)
next
  case (Some v)
  with assms(1) show ?thesis
    using compared_check_step [OF _ assms(2,3)] by (simp add: deformation_check_def)
qed

lemma accuracy_check_step:
  assumes "accuracy_check lle t s = Inr s'"
    and "consistent s" "''accuracy_check'' \<notin> fst ` set (details s)"
  shows "\<exists>es. details s' = details s @ es \<and> optional_entry ''accuracy_check'' es \<and>
              consistent s'"
proof (cases "measured_of t ''indicator_accuracy''")
  case None
  with assms show ?thesis by (simp add: accuracy_check_def optional_entry_def)
next
  case (Some v)
  with assms(1) show ?thesis
    using compared_check_step [OF _ assms(2,3)] by (simp add: accuracy_check_def)
qed

lemma brake_check_step:
  assumes "consistent s" "''brake_check'' \<notin> fst ` set (details s)"
  shows "\<exists>es. details (brake_check t s) = details s @ es \<and> optional_entry ''brake_check'' es \<and>
              consistent (brake_check t s)"
  using assms(1) add_pass [OF assms] add_other [OF assms, of Fail]
  by (auto simp: brake_check_def Let_def optional_entry_def split: option.splits)

lemma optional_entry_keys: "optional_entry k es \<Longrightarrow> fst ` set es \<subseteq> {k}"
  by (auto simp: optional_entry_def)

text \<open>The entries a returning run leaves, in the order of the checks.\<close>

lemma run_checks_shape:
  assumes "run_checks lle t = Inr s"
  shows "\<exists>o2 o4 o5 o6.
           details s =
             [(''load_check'',
               if fge (float_or (test_load t) (Finite 0)) (fmul (expected_test_load t) c95)
               then Pass else Fail)] @ o2 @
             [(''visual_check'', if has_defects t then Conditional else Pass)] @ o4 @ o5 @ o6 \<and>
           optional_entry ''deflection_check'' o2 \<and> optional_entry ''deformation_check'' o4 \<and>
           optional_entry ''brake_check'' o5 \<and> optional_entry ''accuracy_check'' o6 \<and>
           consistent s"
proof -
  let ?s1 = "load_check t init_vstate"
  from load_check_step [of t]
  have d1: "details ?s1 =
     [(''load_check'',
       if fge (float_or (test_load t) (Finite 0)) (fmul (expected_test_load t) c95)
       then Pass else Fail)]" and c1: "consistent ?s1"
    by simp_all
  from assms obtain s2 s4 where
    r2: "deflection_check lle t ?s1 = Inr s2"
    and r4: "deformation_check lle t (visual_check t s2) = Inr s4"
    and r6: "accuracy_check lle t (brake_check t s4) = Inr s"
    by (auto simp: run_checks_def split: sum.splits)
  have f2: "''deflection_check'' \<notin> fst ` set (details ?s1)" by (simp add: d1)
  from deflection_check_step [OF r2 c1 f2] obtain o2 where
    d2: "details s2 = details ?s1 @ o2" and o2: "optional_entry ''deflection_check'' o2"
    and c2: "consistent s2"
    by blast
  have f3: "''visual_check'' \<notin> fst ` set (details s2)"
    using optional_entry_keys [OF o2] by (auto simp: d2 d1)
  let ?s3 = "visual_check t s2"
  from visual_check_step [OF c2 f3, of t]
  have d3: "details ?s3 =
      details s2 @ [(''visual_check'', if has_defects t then Conditional else Pass)]"
    and c3: "consistent ?s3"
    by simp_all
  have f4: "''deformation_check'' \<notin> fst ` set (details ?s3)"
    using optional_entry_keys [OF o2] by (auto simp: d3 d2 d1)
  from deformation_check_step [OF r4 c3 f4] obtain o4 where
    d4: "details s4 = details ?s3 @ o4" and o4: "optional_entry ''deformation_check'' o4"
    and c4: "consistent s4"
    by blast
  have f5: "''brake_check'' \<notin> fst ` set (details s4)"
    using optional_entry_keys [OF o2] optional_entry_keys [OF o4]
    by (auto simp: d4 d3 d2 d1)
  let ?s5 = "brake_check t s4"
  from brake_check_step [OF c4 f5, of t] obtain o5 where
    d5: "details ?s5 = details s4 @ o5" and o5: "optional_entry ''brake_check'' o5"
    and c5: "consistent ?s5"
    by blast
  have f6: "''accuracy_check'' \<notin> fst ` set (details ?s5)"
    using optional_entry_keys [OF o2] optional_entry_keys [OF o4] optional_entry_keys [OF o5]
    by (auto simp: d5 d4 d3 d2 d1)
  from accuracy_check_step [OF r6 c5 f6] obtain o6 where
    d6: "details s = details ?s5 @ o6" and o6: "optional_entry ''accuracy_check'' o6"
    and c6: "consistent s"
    by blast
  have "details s =
             [(''load_check'',
               if fge (float_or (test_load t) (Finite 0)) (fmul (expected_test_load t) c95)
               then Pass else Fail)] @ o2 @
             [(''visual_check'', if has_defects t then Conditional else Pass)] @ o4 @ o5 @ o6"
    by (simp add: d6 d5 d4 d3 d2 d1)
  with o2 o4 o5 o6 c6 show ?thesis by blast
qed

lemma run_checks_load:
  assumes "run_checks lle t = Inr s"
  shows "map_of (details s) ''load_check'' =
     Some (if fge (float_or (test_load t) (Finite 0)) (fmul (expected_test_load t) c95)
           then Pass else Fail)"
  using run_checks_shape [OF assms] by auto

lemma run_checks_visual:
  assumes "run_checks lle t = Inr s"
  shows "map_of (details s) ''visual_check'' =
     Some (if has_defects t then Conditional else Pass)"
proof -
  from run_checks_shape [OF assms] obtain o2 rest where
    d: "details s = (''load_check'',
               if fge (float_or (test_load t) (Finite 0)) (fmul (expected_test_load t) c95)
               then Pass else Fail) # o2 @
             (''visual_check'', if has_defects t then Conditional else Pass) # rest"
    and o2: "optional_entry ''deflection_check'' o2"
    by auto
  from o2 show ?thesis unfolding d by (auto simp: optional_entry_def)
qed

lemma optional_entry_length: "optional_entry k es \<Longrightarrow> length es \<le> 1"
  by (auto simp: optional_entry_def)

lemma run_checks_length:
  assumes "run_checks lle t = Inr s"
  shows "2 \<le> length (details s) \<and> length (details s) \<le> 6"
proof -
  from run_checks_shape [OF assms] obtain o2 o4 o5 o6 and e1 e3 :: "string \<times> check_status"
    where d: "details s = [e1] @ o2 @ [e3] @ o4 @ o5 @ o6"
    and o: "optional_entry ''deflection_check'' o2" "optional_entry ''deformation_check'' o4"
      "optional_entry ''brake_check'' o5" "optional_entry ''accuracy_check'' o6"
    by blast
  have "length (details s) = 2 + length o2 + length o4 + length o5 + length o6"
    by (simp add: d)
  with o [THEN optional_entry_length] show ?thesis by linarith
qed

lemma run_checks_consistent:
  assumes "run_checks lle t = Inr s"
  shows "consistent s"
  using run_checks_shape [OF assms] by blast

lemma critical_override_fail:
  "c \<in> set cs \<Longrightarrow> map_of d c = Some Fail \<Longrightarrow> critical_override d cs r = FAIL"
  by (induction cs) auto

lemma critical_override_none:
  "\<forall>c \<in> set cs. map_of d c \<noteq> Some Fail \<Longrightarrow> critical_override d cs r = r"
  by (induction cs) auto

lemma validate_returns:
  assumes "validate_test_result lle t = Inr v"
  shows "\<exists>s. run_checks lle t = Inr s \<and> v = summarise s"
  using assms by (auto simp: validate_test_result_def split: sum.splits)

lemma py_le_numeric:
  "num_of a \<noteq> None \<Longrightarrow> num_of b \<noteq> None \<Longrightarrow> \<exists>ok. py_le lle a b = Inr ok"
  by (auto simp: py_le_def)

lemma compared_check_numeric:
  "num_of a \<noteq> None \<Longrightarrow> num_of b \<noteq> None \<Longrightarrow>
   \<exists>s'. compared_check lle name advice a b s = Inr s'"
  using py_le_numeric [of a b lle] by (auto simp: compared_check_def Let_def)

section \<open>Claims about the validator\<close>

text \<open>
  C10, amended. Whenever \<^verbatim>\<open>validate_test_result\<close> returns, it has counted the load check
  and the visual check: \<^verbatim>\<open>details\<close> holds a \<^verbatim>\<open>load_check\<close> and a \<^verbatim>\<open>visual_check\<close>
  entry, \<^verbatim>\<open>total_checks\<close> is the number of entries of \<^verbatim>\<open>details\<close> and is at least 2
  (so the zero-denominator branch of the percentage is not taken), and
  \<^verbatim>\<open>checks_passed\<close> is the number of entries with status "pass", hence at most
  \<^verbatim>\<open>total_checks\<close>. It returns for every test whose measured deflection, permanent
  deformation and indicator accuracy, and their limits, are numbers or booleans where
  present; it does not return for every input test.
\<close>

theorem validate_counts:
  "(validate_test_result lle t = Inr v \<longrightarrow>
      map_of (v_details v) ''load_check'' \<noteq> None \<and>
      map_of (v_details v) ''visual_check'' \<noteq> None \<and>
      distinct (map fst (v_details v)) \<and>
      s_total_checks (v_summary v) = length (v_details v) \<and>
      s_checks_passed (v_summary v)
        = length (filter (\<lambda>(k, st). st = Pass) (v_details v)) \<and>
      2 \<le> s_total_checks (v_summary v) \<and>
      0 < s_total_checks (v_summary v) \<and>
      s_checks_passed (v_summary v) \<le> s_total_checks (v_summary v)) \<and>
   ((\<forall>k \<in> {''deflection'', ''max_deflection'', ''permanent_deformation'',
             ''max_permanent_deformation'', ''indicator_accuracy'', ''accuracy_tolerance''}.
       \<forall>x. measured_of t k = Some x \<longrightarrow> num_of x \<noteq> None)
    \<longrightarrow> (\<exists>v. validate_test_result lle t = Inr v))"
proof -
  have a: "map_of (v_details v) ''load_check'' \<noteq> None \<and>
      map_of (v_details v) ''visual_check'' \<noteq> None \<and>
      distinct (map fst (v_details v)) \<and>
      s_total_checks (v_summary v) = length (v_details v) \<and>
      s_checks_passed (v_summary v)
        = length (filter (\<lambda>(k, st). st = Pass) (v_details v)) \<and>
      2 \<le> s_total_checks (v_summary v) \<and>
      0 < s_total_checks (v_summary v) \<and>
      s_checks_passed (v_summary v) \<le> s_total_checks (v_summary v)"
    if ok: "validate_test_result lle t = Inr v"
  proof -
    from validate_returns [OF ok] obtain s where
      r: "run_checks lle t = Inr s" and v: "v = summarise s"
      by blast
    from run_checks_consistent [OF r] have c: "consistent s" .
    from run_checks_length [OF r] have l: "2 \<le> length (details s)" by simp
    from l have "details s \<noteq> []" by auto
    then show ?thesis
      using c l run_checks_load [OF r] run_checks_visual [OF r]
      by (simp add: v summarise_def consistent_def)
  qed
  have b: "\<exists>v. validate_test_result lle t = Inr v"
    if num: "\<forall>k \<in> {''deflection'', ''max_deflection'', ''permanent_deformation'',
             ''max_permanent_deformation'', ''indicator_accuracy'', ''accuracy_tolerance''}.
       \<forall>x. measured_of t k = Some x \<longrightarrow> num_of x \<noteq> None"
  proof -
    have d: "\<exists>s'. deflection_check lle t s = Inr s'" for s
      using num
      by (auto simp: deflection_check_def intro!: compared_check_numeric split: option.splits)
    have f: "\<exists>s'. deformation_check lle t s = Inr s'" for s
      using num
      by (auto simp: deformation_check_def intro!: compared_check_numeric split: option.splits)
    have g: "\<exists>s'. accuracy_check lle t s = Inr s'" for s
      using num
      by (auto simp: accuracy_check_def intro!: compared_check_numeric split: option.splits)
    from d obtain s2 where s2: "deflection_check lle t (load_check t init_vstate) = Inr s2"
      by blast
    from f obtain s4 where s4: "deformation_check lle t (visual_check t s2) = Inr s4"
      by blast
    from g obtain s6 where s6: "accuracy_check lle t (brake_check t s4) = Inr s6"
      by blast
    show ?thesis by (simp add: validate_test_result_def run_checks_def s2 s4 s6)
  qed
  show ?thesis using a b by blast
qed

theorem validate_counts_witness:
  "\<not> isl (validate_test_result sample_list_le four_checks_defect_test) \<and>
   map_of (v_details (projr (validate_test_result sample_list_le four_checks_defect_test)))
     ''load_check'' \<noteq> None \<and>
   map_of (v_details (projr (validate_test_result sample_list_le four_checks_defect_test)))
     ''visual_check'' \<noteq> None \<and>
   s_total_checks (v_summary (projr (validate_test_result sample_list_le
                                       four_checks_defect_test)))
     = length (v_details (projr (validate_test_result sample_list_le four_checks_defect_test))) \<and>
   2 \<le> s_total_checks (v_summary (projr (validate_test_result sample_list_le
                                            four_checks_defect_test))) \<and>
   s_checks_passed (v_summary (projr (validate_test_result sample_list_le
                                        four_checks_defect_test)))
     \<le> s_total_checks (v_summary (projr (validate_test_result sample_list_le
                                            four_checks_defect_test)))"
proof -
  have h: "\<forall>k \<in> {''deflection'', ''max_deflection'', ''permanent_deformation'',
                  ''max_permanent_deformation'', ''indicator_accuracy'', ''accuracy_tolerance''}.
             \<forall>x. measured_of four_checks_defect_test k = Some x \<longrightarrow> num_of x \<noteq> None"
    by (simp add: four_checks_defect_test_def defect_test_def sample_test_def measured_of_def)
  from validate_counts [of sample_list_le four_checks_defect_test] h
  obtain v where ok: "validate_test_result sample_list_le four_checks_defect_test = Inr v"
    by blast
  then have i: "\<not> isl (validate_test_result sample_list_le four_checks_defect_test)"
    and e: "projr (validate_test_result sample_list_le four_checks_defect_test) = v"
    by simp_all
  from validate_counts [of sample_list_le four_checks_defect_test v] ok i
  show ?thesis unfolding e by blast
qed

text \<open>
  C10, as stated, on a test whose measured values are \<^verbatim>\<open>{"deflection": null}\<close>: the
  load check is counted, then \<^verbatim>\<open>None <= float("inf")\<close> raises \<^verbatim>\<open>TypeError\<close> before the
  visual check is counted, and no summary is returned.
\<close>

theorem null_measurement_counterexample:
  "measured_values null_deflection_test = Some [''deflection'' \<mapsto> JNull] \<and>
   validate_test_result sample_list_le null_deflection_test = Inl TypeError"
  by (simp add: null_deflection_test_def sample_test_def validate_test_result_def run_checks_def
        deflection_check_def compared_check_def py_le_def measured_of_def Let_def)

text \<open>Without the four optional keys only the load check and the visual check run.\<close>

lemma run_checks_mandatory:
  assumes "measured_of t ''deflection'' = None"
    and "measured_of t ''permanent_deformation'' = None"
    and "measured_of t ''brake_test'' = None"
    and "measured_of t ''indicator_accuracy'' = None"
  shows "run_checks lle t = Inr (visual_check t (load_check t init_vstate))"
  using assms
  by (simp add: run_checks_def deflection_check_def deformation_check_def brake_check_def
        accuracy_check_def)

lemmas rd_values =
  c95_value rd_sample_a rd_sample_b rd_sample_c rd_rounding_a rd_rounding_b rd_rounding_c
  rd_neg_negative_a rd_neg_negative_b rd_neg_negative_c rd_overflow [simplified]
  rd_q_1_1 rd_pct_1_1 rd_q_1_2 rd_pct_1_2 rd_q_2_3 rd_pct_2_3 rd_q_3_4 rd_pct_3_4
  rd_q_4_5 rd_pct_4_5 rd_q_5_6 rd_pct_5_6

lemmas mandatory_eval =
  validate_test_result_def summarise_def load_check_def visual_check_def vstate_defs
  init_vstate_def Let_def float_or_def expected_test_load_def has_defects_def
  percentage_result_def pass_percentage_def critical_checks_def measured_of_def
  fge_def feq_def any_fail_def

lemma round1_100: "round1 (Finite 100) = Finite 100"
proof -
  have "rne 1000 = 1000" using rne_of_int [of 1000] by simp
  then show ?thesis by (simp add: rd_pct_1_1)
qed

lemma sample_eval:
  "validate_test_result sample_list_le sample_test
     = Inr \<lparr>v_result = PASS,
            v_details = [(''load_check'', Pass), (''visual_check'', Pass)],
            v_summary = \<lparr>s_checks_passed = 2, s_total_checks = 2,
                         s_pass_percentage = Finite 100\<rparr>,
            v_recommendations = None\<rparr>"
  by (simp add: sample_test_def run_checks_mandatory mandatory_eval rd_values round1_100
        del: round1.simps)

lemma rounding_eval:
  "v_result (projr (validate_test_result sample_list_le rounding_test)) = PASS"
  by (simp add: rounding_test_def sample_test_def run_checks_mandatory mandatory_eval rd_values)

lemma negative_eval:
  "v_result (projr (validate_test_result sample_list_le negative_swl_test)) = FAIL"
  by (simp add: negative_swl_test_def sample_test_def run_checks_mandatory mandatory_eval
        rd_values)

lemma overflow_eval:
  "v_result (projr (validate_test_result sample_list_le overflow_test)) = FAIL"
  by (simp add: overflow_test_def sample_test_def run_checks_mandatory mandatory_eval rd_values)

lemma defect_eval:
  "v_result (projr (validate_test_result sample_list_le defect_test)) = FAIL"
  by (simp add: defect_test_def sample_test_def run_checks_mandatory mandatory_eval rd_values
        strip_def is_space_def)

lemma flt_not_fge: "flt x y \<Longrightarrow> \<not> fge x y"
  by (simp add: flt_def fge_def)

text \<open>
  C2, as stated, on the test with safe working load 2.4, applied load 2.8499999999999996
  and no stored percentage: the applied load is below 95% of
  \<open>safe_working_load * 125 / 100\<close> in exact arithmetic (also when 0.95 is read as the
  float nearest to it), but the validator computes
  \<^verbatim>\<open>2.4 * 125 = 300.0\<close>, \<^verbatim>\<open>300.0 / 100 = 3.0\<close> and \<^verbatim>\<open>3.0 * 0.95 = 2.8499999999999996\<close>, the
  load check passes and the verdict is PASS.
\<close>

theorem rounded_threshold_counterexample:
  "safe_working_load rounding_test = Some (Finite (5404319552844595 / 2 ^ 51)) \<and>
   test_load rounding_test = Some (Finite (6417629469002956 / 2 ^ 51)) \<and>
   test_load_percentage rounding_test = None \<and>
   (6417629469002956 / 2 ^ 51 :: real)
     < 95 / 100 * (5404319552844595 / 2 ^ 51 * (125 / 100)) \<and>
   c95 = Finite (8556839292003942 / 2 ^ 53) \<and>
   (6417629469002956 / 2 ^ 51 :: real)
     < 8556839292003942 / 2 ^ 53 * (5404319552844595 / 2 ^ 51 * (125 / 100)) \<and>
   \<not> isl (validate_test_result sample_list_le rounding_test) \<and>
   v_result (projr (validate_test_result sample_list_le rounding_test)) = PASS"
  by (simp add: rounding_test_def sample_test_def run_checks_mandatory mandatory_eval rd_values)

text \<open>
  C2, amended. Whenever \<^verbatim>\<open>validate_test_result\<close> returns a verdict (it raises
  \<^verbatim>\<open>TypeError\<close> on a measured value that cannot be compared): if the applied test load
  (0 when absent) is below the threshold as the validator computes it in double
  arithmetic, \<^verbatim>\<open>((swl * (test_load_percentage or 125)) / 100) * 0.95\<close> with each
  operation rounded and the percentage 125 when absent or zero, the verdict is FAIL
  however the other checks come out; and whenever the load check, the brake check or the
  deformation check reports "fail", the verdict is FAIL.
\<close>

theorem critical_override_forces_fail:
  assumes ok: "validate_test_result lle t = Inr v"
  shows "(flt (float_or (test_load t) (Finite 0))
              (fmul (fdiv (fmul (float_or (safe_working_load t) (Finite 0))
                                (float_or (test_load_percentage t) (Finite 125)))
                          (Finite 100))
                    c95)
          \<longrightarrow> v_result v = FAIL) \<and>
         (map_of (v_details v) ''load_check'' = Some Fail
          \<or> map_of (v_details v) ''brake_check'' = Some Fail
          \<or> map_of (v_details v) ''deformation_check'' = Some Fail
          \<longrightarrow> v_result v = FAIL)"
proof -
  from validate_returns [OF ok] obtain s where
    r: "run_checks lle t = Inr s" and v: "v = summarise s"
    by blast
  have crit: "v_result v = FAIL"
    if "c \<in> set critical_checks" and "map_of (details s) c = Some Fail" for c
    using that by (simp add: v summarise_def critical_override_fail)
  have part2: "v_result v = FAIL"
    if "map_of (v_details v) ''load_check'' = Some Fail
        \<or> map_of (v_details v) ''brake_check'' = Some Fail
        \<or> map_of (v_details v) ''deformation_check'' = Some Fail"
  proof -
    from that obtain c where "c \<in> set critical_checks"
      and "map_of (details s) c = Some Fail"
      by (auto simp: v summarise_def critical_checks_def)
    then show ?thesis by (rule crit)
  qed
  have part1: "v_result v = FAIL"
    if low: "flt (float_or (test_load t) (Finite 0))
              (fmul (fdiv (fmul (float_or (safe_working_load t) (Finite 0))
                                (float_or (test_load_percentage t) (Finite 125)))
                          (Finite 100))
                    c95)"
  proof -
    from low have "\<not> fge (float_or (test_load t) (Finite 0)) (fmul (expected_test_load t) c95)"
      unfolding expected_test_load_def by (rule flt_not_fge)
    then have "map_of (details s) ''load_check'' = Some Fail"
      by (simp add: run_checks_load [OF r])
    moreover have "''load_check'' \<in> set critical_checks" by (simp add: critical_checks_def)
    ultimately show ?thesis using crit by blast
  qed
  show ?thesis using part1 part2 by blast
qed

theorem critical_override_forces_fail_witness:
  "flt (float_or (test_load low_load_test) (Finite 0))
       (fmul (fdiv (fmul (float_or (safe_working_load low_load_test) (Finite 0))
                         (float_or (test_load_percentage low_load_test) (Finite 125)))
                   (Finite 100))
             c95) \<and>
   \<not> isl (validate_test_result sample_list_le low_load_test) \<and>
   map_of (v_details (projr (validate_test_result sample_list_le low_load_test))) ''load_check''
     = Some Fail \<and>
   v_result (projr (validate_test_result sample_list_le low_load_test)) = FAIL"
proof -
  let ?v = "projr (validate_test_result sample_list_le low_load_test)"
  have low: "flt (float_or (test_load low_load_test) (Finite 0))
       (fmul (fdiv (fmul (float_or (safe_working_load low_load_test) (Finite 0))
                         (float_or (test_load_percentage low_load_test) (Finite 125)))
                   (Finite 100))
             c95)"
    by (simp add: low_load_test_def sample_test_def float_or_def flt_def rd_values)
  have ret: "\<not> isl (validate_test_result sample_list_le low_load_test)"
    by (simp add: low_load_test_def sample_test_def run_checks_mandatory
          validate_test_result_def measured_of_def)
  then have ok: "validate_test_result sample_list_le low_load_test = Inr ?v" by simp
  have entry: "map_of (v_details ?v) ''load_check'' = Some Fail"
    by (simp add: low_load_test_def sample_test_def run_checks_mandatory mandatory_eval
          rd_values)
  from critical_override_forces_fail [OF ok] low entry
  have "v_result ?v = FAIL" by blast
  with low ret entry show ?thesis by blast
qed

text \<open>With distinct names, all entries but one passing leaves one check not passed.\<close>

lemma filter_all_but_one:
  assumes "distinct (map fst xs)" "(k, v) \<in> set xs" "\<not> P (k, v)"
    and "\<forall>e \<in> set xs. fst e \<noteq> k \<longrightarrow> P e"
  shows "length (filter P xs) + 1 = length xs"
  using assms
proof (induction xs)
  case Nil
  then show ?case by simp
next
  case (Cons x xs)
  show ?case
  proof (cases "x = (k, v)")
    case True
    with Cons.prems(1) have "k \<notin> fst ` set xs" by simp
    with Cons.prems(4) have "\<forall>e \<in> set xs. P e" by (auto simp: image_iff)
    then have "filter P xs = xs" by (simp add: filter_id_conv)
    with True Cons.prems(3) show ?thesis by simp
  next
    case False
    with Cons.prems have in_xs: "(k, v) \<in> set xs" by auto
    with Cons.prems(1) have "fst x \<noteq> k" by (auto simp: image_iff)
    with Cons.prems(4) have px: "P x" by simp
    from Cons.IH [OF _ in_xs Cons.prems(3)] Cons.prems(1,4)
    have "length (filter P xs) + 1 = length xs" by simp
    with px show ?thesis by simp
  qed
qed

text \<open>
  The percentage \<^verbatim>\<open>(n - 1) / n * 100\<close> in doubles, for two to six checks: never 100, and
  at least 75 from four checks on.
\<close>

lemma pct_cases:
  assumes "checks_passed s + 1 = total_checks s" "2 \<le> total_checks s" "total_checks s \<le> 6"
  shows "\<not> feq (pass_percentage s) (Finite 100) \<and>
         (fge (pass_percentage s) (Finite 75) \<longleftrightarrow> 4 \<le> total_checks s)"
proof -
  from assms(2,3) consider "total_checks s = 2" | "total_checks s = 3" | "total_checks s = 4"
    | "total_checks s = 5" | "total_checks s = 6"
    by linarith
  then show ?thesis
  proof cases
    case 1
    with assms(1) have "checks_passed s = 1" by simp
    with 1 show ?thesis by (simp add: pass_percentage_def feq_def fge_def rd_values)
  next
    case 2
    with assms(1) have "checks_passed s = 2" by simp
    with 2 show ?thesis by (simp add: pass_percentage_def feq_def fge_def rd_values)
  next
    case 3
    with assms(1) have "checks_passed s = 3" by simp
    with 3 show ?thesis by (simp add: pass_percentage_def feq_def fge_def rd_values)
  next
    case 4
    with assms(1) have "checks_passed s = 4" by simp
    with 4 show ?thesis by (simp add: pass_percentage_def feq_def fge_def rd_values)
  next
    case 5
    with assms(1) have "checks_passed s = 5" by simp
    with 5 show ?thesis by (simp add: pass_percentage_def feq_def fge_def rd_values)
  qed
qed

text \<open>
  C3, as stated, on a test with safe working load 10, applied load 13, percentage 125, no
  measured values and the defect note "crack": the load check passes, the visual check is
  "conditional", one check of two passed (50%, below the 75% the conditional verdict
  requires) and the verdict is FAIL.
\<close>

theorem defects_alone_counterexample:
  "defects_found defect_test = Some [99, 114, 97, 99, 107] \<and>
   has_defects defect_test \<and>
   \<not> isl (validate_test_result sample_list_le defect_test) \<and>
   v_details (projr (validate_test_result sample_list_le defect_test))
     = [(''load_check'', Pass), (''visual_check'', Conditional)] \<and>
   v_result (projr (validate_test_result sample_list_le defect_test)) = FAIL"
  by (simp add: defect_test_def sample_test_def run_checks_mandatory mandatory_eval rd_values
        strip_def is_space_def)

text \<open>
  C3, amended. For every test on which \<^verbatim>\<open>validate_test_result\<close> returns, whose
  \<^verbatim>\<open>defects_found\<close> is non-empty after stripping white space, and on which every other
  check that ran passed: the visual check is "conditional", all checks but that one
  passed, and the verdict is CONDITIONAL when at least four checks ran (at least 75% of
  them passed) and FAIL when two or three ran; in particular it is FAIL for a test with a
  passing load check and no optional measurement keys.
\<close>

theorem defects_verdict:
  assumes ok: "validate_test_result lle t = Inr v"
    and defects: "has_defects t"
    and others: "\<forall>e \<in> set (v_details v). fst e \<noteq> ''visual_check'' \<longrightarrow> snd e = Pass"
  shows "map_of (v_details v) ''visual_check'' = Some Conditional \<and>
         s_checks_passed (v_summary v) + 1 = s_total_checks (v_summary v) \<and>
         v_result v = (if 4 \<le> s_total_checks (v_summary v) then CONDITIONAL else FAIL)"
proof -
  from validate_returns [OF ok] obtain s where
    r: "run_checks lle t = Inr s" and v: "v = summarise s"
    by blast
  have d: "v_details v = details s" by (simp add: v summarise_def)
  from run_checks_consistent [OF r] have c: "consistent s" .
  from run_checks_visual [OF r] defects
  have vis: "map_of (details s) ''visual_check'' = Some Conditional" by simp
  then have mem: "(''visual_check'', Conditional) \<in> set (details s)" by (rule map_of_SomeD)
  from others have oth: "\<forall>e \<in> set (details s). fst e \<noteq> ''visual_check'' \<longrightarrow>
      (case e of (k, st) \<Rightarrow> st = Pass)"
    by (auto simp: d)
  from c have dist: "distinct (map fst (details s))" by (simp add: consistent_def)
  have "length (filter (\<lambda>(k, st). st = Pass) (details s)) + 1 = length (details s)"
    by (rule filter_all_but_one [OF dist mem _ oth]) simp
  with c have cnt: "checks_passed s + 1 = total_checks s" by (simp add: consistent_def)
  from run_checks_length [OF r] c
  have n: "2 \<le> total_checks s" "total_checks s \<le> 6" by (simp_all add: consistent_def)
  have nofail: "st \<noteq> Fail" if "(k, st) \<in> set (details s)" for k st
  proof (cases "k = ''visual_check''")
    case True
    with that mem dist have "st = Conditional"
      by (metis eq_key_imp_eq_value)
    then show ?thesis by simp
  next
    case False
    with oth that show ?thesis by auto
  qed
  then have af: "\<not> any_fail (details s)" by (auto simp: any_fail_def list_ex_iff)
  have "map_of (details s) k \<noteq> Some Fail" for k
    using nofail map_of_SomeD by fastforce
  then have co: "critical_override (details s) critical_checks x = x" for x
    by (intro critical_override_none) simp
  from pct_cases [OF cnt n] af
  have "percentage_result s = (if 4 \<le> total_checks s then CONDITIONAL else FAIL)"
    by (simp add: percentage_result_def)
  with vis cnt show ?thesis by (simp add: v summarise_def co)
qed

theorem defects_verdict_witness:
  "\<not> isl (validate_test_result sample_list_le four_checks_defect_test) \<and>
   s_total_checks (v_summary (projr (validate_test_result sample_list_le four_checks_defect_test)))
     = 4 \<and>
   v_result (projr (validate_test_result sample_list_le four_checks_defect_test))
     = CONDITIONAL \<and>
   \<not> isl (validate_test_result sample_list_le defect_test) \<and>
   s_total_checks (v_summary (projr (validate_test_result sample_list_le defect_test))) = 2 \<and>
   v_result (projr (validate_test_result sample_list_le defect_test)) = FAIL"
proof -
  let ?v4 = "projr (validate_test_result sample_list_le four_checks_defect_test)"
  let ?v2 = "projr (validate_test_result sample_list_le defect_test)"
  have d4: "\<not> isl (validate_test_result sample_list_le four_checks_defect_test) \<and>
      v_details ?v4 = [(''load_check'', Pass), (''deflection_check'', Pass),
                       (''visual_check'', Conditional), (''brake_check'', Pass)] \<and>
      s_total_checks (v_summary ?v4) = 4"
    by (simp add: four_checks_defect_test_def defect_test_def sample_test_def
          validate_test_result_def run_checks_def deflection_check_def deformation_check_def
          brake_check_def accuracy_check_def compared_check_def py_le_def sample_list_le_def
          summarise_def load_check_def visual_check_def vstate_defs init_vstate_def Let_def
          float_or_def expected_test_load_def has_defects_def measured_of_def fge_def
          rd_values strip_def is_space_def)
  have d2: "\<not> isl (validate_test_result sample_list_le defect_test) \<and>
      v_details ?v2 = [(''load_check'', Pass), (''visual_check'', Conditional)] \<and>
      s_total_checks (v_summary ?v2) = 2"
    by (simp add: defect_test_def sample_test_def run_checks_mandatory
          validate_test_result_def summarise_def load_check_def visual_check_def vstate_defs
          init_vstate_def Let_def float_or_def expected_test_load_def has_defects_def
          measured_of_def fge_def rd_values strip_def is_space_def)
  have h4: "has_defects four_checks_defect_test" and h2: "has_defects defect_test"
    by (simp_all add: four_checks_defect_test_def defect_test_def sample_test_def
          has_defects_def strip_def is_space_def)
  from d4 have ok4: "validate_test_result sample_list_le four_checks_defect_test = Inr ?v4"
    by simp
  from d2 have ok2: "validate_test_result sample_list_le defect_test = Inr ?v2" by simp
  from d4 have o4: "\<forall>e \<in> set (v_details ?v4). fst e \<noteq> ''visual_check'' \<longrightarrow> snd e = Pass"
    by simp
  from d2 have o2: "\<forall>e \<in> set (v_details ?v2). fst e \<noteq> ''visual_check'' \<longrightarrow> snd e = Pass"
    by simp
  from defects_verdict [OF ok4 h4 o4] d4 have r4: "v_result ?v4 = CONDITIONAL" by simp
  from defects_verdict [OF ok2 h2 o2] d2 have r2: "v_result ?v2 = FAIL" by simp
  from d4 d2 r4 r2 show ?thesis by blast
qed

text \<open>The computed threshold of a non-positive safe working load is not above zero.\<close>

lemma threshold_nonpos:
  assumes "s \<le> 0" "0 \<le> l"
  shows "fge (Finite l) (fmul (fdiv (fmul (Finite s) (Finite 125)) (Finite 100)) c95)"
proof -
  have c: "(0::real) < 8556839292003942 / 2 ^ 53" by simp
  from assms(1) have "s * 125 \<le> 0" by simp
  from round_double_nonpos [OF this] show ?thesis
  proof (elim disjE exE conjE)
    assume "round_double (s * 125) = NInf"
    then show ?thesis by (simp add: fge_def c95_value)
  next
    fix a assume a: "round_double (s * 125) = Finite a" "a \<le> 0"
    then have "a / 100 \<le> 0" by simp
    from round_double_nonpos [OF this] show ?thesis
    proof (elim disjE exE conjE)
      assume "round_double (a / 100) = NInf"
      with a show ?thesis by (simp add: fge_def c95_value)
    next
      fix b assume b: "round_double (a / 100) = Finite b" "b \<le> 0"
      with c have "b * (8556839292003942 / 2 ^ 53) \<le> 0"
        by (intro mult_nonpos_nonneg) simp_all
      from round_double_nonpos [OF this] show ?thesis
      proof (elim disjE exE conjE)
        assume "round_double (b * (8556839292003942 / 2 ^ 53)) = NInf"
        with a b show ?thesis by (simp add: fge_def c95_value)
      next
        fix r assume "round_double (b * (8556839292003942 / 2 ^ 53)) = Finite r" "r \<le> 0"
        with a b assms(2) show ?thesis by (simp add: fge_def c95_value)
      qed
    qed
  qed
qed

lemma round1_50: "round1 (Finite 50) = Finite 50"
proof -
  have "rne 500 = 500" using rne_of_int [of 500] by simp
  then show ?thesis by (simp add: rd_pct_1_2)
qed

lemma two_checks_pass:
  assumes "run_checks lle t = Inr (visual_check t (load_check t init_vstate))"
    and "\<not> has_defects t"
    and "fge (float_or (test_load t) (Finite 0)) (fmul (expected_test_load t) c95)"
  shows "validate_test_result lle t
     = Inr \<lparr>v_result = PASS,
            v_details = [(''load_check'', Pass), (''visual_check'', Pass)],
            v_summary = \<lparr>s_checks_passed = 2, s_total_checks = 2,
                         s_pass_percentage = Finite 100\<rparr>,
            v_recommendations = None\<rparr>"
proof -
  from assms(3) have "load_check t init_vstate
      = passed (set_detail ''load_check'' Pass (count_check init_vstate))"
    by (simp add: load_check_def Let_def)
  with assms(1,2) show ?thesis
    by (simp add: validate_test_result_def summarise_def visual_check_def vstate_defs
          init_vstate_def Let_def percentage_result_def pass_percentage_def critical_checks_def
          fge_def feq_def any_fail_def rd_values round1_100 del: round1.simps)
qed

lemma two_checks_fail:
  assumes "run_checks lle t = Inr (visual_check t (load_check t init_vstate))"
    and "\<not> has_defects t"
    and "\<not> fge (float_or (test_load t) (Finite 0)) (fmul (expected_test_load t) c95)"
  shows "validate_test_result lle t
     = Inr \<lparr>v_result = FAIL,
            v_details = [(''load_check'', Fail), (''visual_check'', Pass)],
            v_summary = \<lparr>s_checks_passed = 1, s_total_checks = 2,
                         s_pass_percentage = Finite 50\<rparr>,
            v_recommendations = Some ''Ensure test load is at least 125% of SWL''\<rparr>"
proof -
  from assms(3) have "load_check t init_vstate
      = recommend ''Ensure test load is at least 125% of SWL''
          (set_detail ''load_check'' Fail (count_check init_vstate))"
    by (simp add: load_check_def Let_def)
  with assms(1,2) show ?thesis
    by (simp add: validate_test_result_def summarise_def visual_check_def vstate_defs
          init_vstate_def Let_def percentage_result_def pass_percentage_def critical_checks_def
          fge_def feq_def any_fail_def rd_values round1_50 del: round1.simps)
qed

text \<open>
  C4, as stated, on two tests with no stored percentage, no measured values and no
  defects. With safe working load \<open>2 ^ 1020\<close> and applied load \<open>2 ^ 1021\<close> (both
  floats, the load 200% of the safe working load) \<^verbatim>\<open>swl * 125\<close> overflows to
  \<^verbatim>\<open>inf\<close>, the load check fails and the verdict is FAIL. With safe working load -10 and
  applied load -12 (at least 125% of -10, which is -12.5) the threshold is -11.875, the
  load check fails and the verdict is FAIL.
\<close>

theorem proof_load_counterexample:
  "float_or (test_load_percentage overflow_test) (Finite 125) = Finite 125 \<and>
   safe_working_load overflow_test = Some (Finite (2 ^ 1020)) \<and>
   test_load overflow_test = Some (Finite (2 ^ 1021)) \<and>
   is_double (2 ^ 1020) \<and> is_double (2 ^ 1021) \<and>
   (125 / 100 * 2 ^ 1020 :: real) \<le> 2 ^ 1021 \<and>
   measured_values overflow_test = Some Map.empty \<and> defects_found overflow_test = None \<and>
   \<not> isl (validate_test_result sample_list_le overflow_test) \<and>
   v_result (projr (validate_test_result sample_list_le overflow_test)) = FAIL \<and>
   float_or (test_load_percentage negative_swl_test) (Finite 125) = Finite 125 \<and>
   safe_working_load negative_swl_test = Some (Finite (- 10)) \<and>
   test_load negative_swl_test = Some (Finite (- 12)) \<and>
   (125 / 100 * (- 10) :: real) \<le> - 12 \<and>
   measured_values negative_swl_test = Some Map.empty \<and> defects_found negative_swl_test = None \<and>
   \<not> isl (validate_test_result sample_list_le negative_swl_test) \<and>
   v_result (projr (validate_test_result sample_list_le negative_swl_test)) = FAIL"
  by (simp add: overflow_test_def negative_swl_test_def sample_test_def run_checks_mandatory
        mandatory_eval rd_values is_double_def
        rd_big_swl [simplified] rd_big_load [simplified])

text \<open>
  C4, amended. For every test whose measured values contain none of the keys
  \<^verbatim>\<open>deflection\<close>, \<^verbatim>\<open>permanent_deformation\<close>, \<^verbatim>\<open>brake_test\<close> and
  \<^verbatim>\<open>indicator_accuracy\<close> and whose \<^verbatim>\<open>defects_found\<close> is empty or absent, the validator
  returns with \<^verbatim>\<open>total_checks\<close> 2: verdict PASS, \<^verbatim>\<open>checks_passed\<close> 2 and
  \<^verbatim>\<open>pass_percentage\<close> 100.0 when the applied load is at least the threshold the validator
  computes in double arithmetic, and verdict FAIL with \<^verbatim>\<open>checks_passed\<close> 1 otherwise.
  The applied load reaches that threshold whenever, with the default percentage (125,
  also taken for an absent or zero percentage), the safe working load and the applied
  load are finite floats, the applied load is non-negative and at least 125% of the safe
  working load, and \<^verbatim>\<open>swl * 125\<close> does not overflow to infinity.
\<close>

theorem proof_load_pass:
  assumes "measured_of t ''deflection'' = None"
    and "measured_of t ''permanent_deformation'' = None"
    and "measured_of t ''brake_test'' = None"
    and "measured_of t ''indicator_accuracy'' = None"
    and defects: "defects_found t = None \<or> defects_found t = Some []"
  shows "(\<exists>v. validate_test_result lle t = Inr v \<and>
           s_total_checks (v_summary v) = 2 \<and>
           (if fge (float_or (test_load t) (Finite 0)) (fmul (expected_test_load t) c95)
            then v_result v = PASS \<and> s_checks_passed (v_summary v) = 2 \<and>
                 s_pass_percentage (v_summary v) = Finite 100
            else v_result v = FAIL \<and> s_checks_passed (v_summary v) = 1)) \<and>
         (float_or (test_load_percentage t) (Finite 125) = Finite 125 \<and>
          float_or (safe_working_load t) (Finite 0) = Finite s \<and> is_double s \<and>
          float_or (test_load t) (Finite 0) = Finite l \<and> is_double l \<and>
          0 \<le> l \<and> 125 / 100 * s \<le> l \<and> fmul (Finite s) (Finite 125) \<noteq> PInf
          \<longrightarrow> fge (float_or (test_load t) (Finite 0)) (fmul (expected_test_load t) c95))"
proof (intro conjI impI)
  have r: "run_checks lle t = Inr (visual_check t (load_check t init_vstate))"
    using assms(1-4) by (rule run_checks_mandatory)
  from defects have nd: "\<not> has_defects t" by (auto simp: has_defects_def)
  show "\<exists>v. validate_test_result lle t = Inr v \<and>
           s_total_checks (v_summary v) = 2 \<and>
           (if fge (float_or (test_load t) (Finite 0)) (fmul (expected_test_load t) c95)
            then v_result v = PASS \<and> s_checks_passed (v_summary v) = 2 \<and>
                 s_pass_percentage (v_summary v) = Finite 100
            else v_result v = FAIL \<and> s_checks_passed (v_summary v) = 1)"
  proof (cases "fge (float_or (test_load t) (Finite 0)) (fmul (expected_test_load t) c95)")
    case True
    from two_checks_pass [OF r nd True] True show ?thesis by simp
  next
    case False
    from two_checks_fail [OF r nd False] False show ?thesis by simp
  qed
next
  assume h: "float_or (test_load_percentage t) (Finite 125) = Finite 125 \<and>
          float_or (safe_working_load t) (Finite 0) = Finite s \<and> is_double s \<and>
          float_or (test_load t) (Finite 0) = Finite l \<and> is_double l \<and>
          0 \<le> l \<and> 125 / 100 * s \<le> l \<and> fmul (Finite s) (Finite 125) \<noteq> PInf"
  then have ge: "5 / 4 * s \<le> l" by simp
  have "fge (Finite l) (fmul (fdiv (fmul (Finite s) (Finite 125)) (Finite 100)) c95)"
  proof (cases "0 \<le> s")
    case True
    with h ge show ?thesis by (intro threshold_le) simp_all
  next
    case False
    with h show ?thesis by (intro threshold_nonpos) simp_all
  qed
  with h show "fge (float_or (test_load t) (Finite 0)) (fmul (expected_test_load t) c95)"
    by (simp add: expected_test_load_def)
qed

theorem proof_load_pass_witness:
  "\<not> isl (validate_test_result sample_list_le sample_test) \<and>
   v_result (projr (validate_test_result sample_list_le sample_test)) = PASS \<and>
   s_checks_passed (v_summary (projr (validate_test_result sample_list_le sample_test))) = 2 \<and>
   s_total_checks (v_summary (projr (validate_test_result sample_list_le sample_test))) = 2 \<and>
   s_pass_percentage (v_summary (projr (validate_test_result sample_list_le sample_test)))
     = Finite 100"
proof -
  have k: "measured_of sample_test ''deflection'' = None"
      "measured_of sample_test ''permanent_deformation'' = None"
      "measured_of sample_test ''brake_test'' = None"
      "measured_of sample_test ''indicator_accuracy'' = None"
      "defects_found sample_test = None \<or> defects_found sample_test = Some []"
    by (simp_all add: sample_test_def measured_of_def)
  have h: "float_or (test_load_percentage sample_test) (Finite 125) = Finite 125 \<and>
      float_or (safe_working_load sample_test) (Finite 0) = Finite 10 \<and> is_double 10 \<and>
      float_or (test_load sample_test) (Finite 0) = Finite 13 \<and> is_double 13 \<and>
      (0::real) \<le> 13 \<and> (125 / 100 * 10 :: real) \<le> 13 \<and>
      fmul (Finite 10) (Finite 125) \<noteq> PInf"
    by (simp add: sample_test_def float_or_def is_double_def rd_ten rd_thirteen rd_sample_a)
  from proof_load_pass [OF k, of sample_list_le 10 13] h
  obtain v where "validate_test_result sample_list_le sample_test = Inr v"
    "v_result v = PASS" "s_checks_passed (v_summary v) = 2" "s_total_checks (v_summary v) = 2"
    "s_pass_percentage (v_summary v) = Finite 100"
    by auto
  then show ?thesis by simp
qed

section \<open>Claims about certificate validity\<close>

text \<open>
  C1. \<open>is_valid\<close> is true exactly when the status is "issued" and the expiry date is on
  or after the evaluation day; it is false for every other status whatever the date; an
  issued certificate whose expiry date has passed is still "issued" and is not valid.
\<close>

theorem is_valid_iff:
  "(is_valid c day \<longleftrightarrow> c_status c = ISSUED \<and> expiry_date c \<ge> day) \<and>
   (c_status c \<in> {DRAFT, EXPIRED, REVOKED, SUPERSEDED} \<longrightarrow> \<not> is_valid c day) \<and>
   (c_status c = ISSUED \<and> expiry_date c < day \<longrightarrow> c_status c = ISSUED \<and> \<not> is_valid c day)"
  by (auto simp: is_valid_def)

theorem is_valid_iff_witness:
  "is_valid sample_certificate 740365 \<and>
   \<not> is_valid (sample_certificate\<lparr>c_status := REVOKED\<rparr>) 740000 \<and>
   c_status sample_certificate = ISSUED \<and> \<not> is_valid sample_certificate 740366"
  using is_valid_iff [of sample_certificate 740365]
    is_valid_iff [of "sample_certificate\<lparr>c_status := REVOKED\<rparr>" 740000]
    is_valid_iff [of sample_certificate 740366]
  by (simp add: sample_certificate_def)

text \<open>What the public verification reports for a certificate it finds.\<close>

lemma verify_found:
  assumes "scalar_one_or_none (filter (\<lambda>c. certificate_number c = n) (certificates d))
             = Inr (Some c)"
    and "certificate_asset c d = Some a"
  shows "\<exists>v. verify_certificate n e d = Inr v \<and> vr_valid v = is_valid c (today e) \<and>
           vr_status v = Some (status_value (c_status c)) \<and>
           vr_days_until_expiry v =
             Some (if is_valid c (today e) then days_until_expiry c (today e) else 0)"
  using assms by (simp add: verify_certificate_def Let_def)

lemma verify_clamped:
  assumes "verify_certificate n e d = Inr v" and "\<not> vr_valid v"
    and "vr_days_until_expiry v = Some k"
  shows "k = 0"
  using assms
  by (auto simp: verify_certificate_def Let_def split: sum.splits option.splits if_splits)

text \<open>
  C8. \<open>days_until_expiry\<close> is the signed difference \<open>expiry_date - today\<close>: 0 on the
  expiry day, \<open>-1\<close> the day after; the public verification of a certificate that is not
  valid reports \<open>days_until_expiry = 0\<close>.
\<close>

theorem days_until_expiry_exact:
  "days_until_expiry c day = expiry_date c - day \<and>
   (expiry_date c = day \<longrightarrow> days_until_expiry c day = 0) \<and>
   (expiry_date c = day - 1 \<longrightarrow> days_until_expiry c day = - 1) \<and>
   (scalar_one_or_none (filter (\<lambda>x. certificate_number x = n) (certificates d)) = Inr (Some c)
      \<and> certificate_asset c d = Some a \<and> \<not> is_valid c (today e)
    \<longrightarrow> (\<exists>v. verify_certificate n e d = Inr v \<and> \<not> vr_valid v
              \<and> vr_days_until_expiry v = Some 0)) \<and>
   (verify_certificate n e d = Inr v \<and> \<not> vr_valid v \<and> vr_days_until_expiry v = Some k
    \<longrightarrow> k = 0)"
proof -
  have a: "days_until_expiry c day = expiry_date c - day" by (simp add: days_until_expiry_def)
  have b: "\<exists>v. verify_certificate n e d = Inr v \<and> \<not> vr_valid v
              \<and> vr_days_until_expiry v = Some 0"
    if "scalar_one_or_none (filter (\<lambda>x. certificate_number x = n) (certificates d))
          = Inr (Some c)"
      and "certificate_asset c d = Some a" and "\<not> is_valid c (today e)"
    using verify_found [OF that(1) that(2), of e] that(3) by auto
  have c: "k = 0"
    if "verify_certificate n e d = Inr v" and "\<not> vr_valid v"
      and "vr_days_until_expiry v = Some k"
    using that by (rule verify_clamped)
  show ?thesis using a b c by auto
qed

theorem days_until_expiry_exact_witness:
  "days_until_expiry sample_certificate 740365 = 0 \<and>
   days_until_expiry sample_certificate 740366 = - 1 \<and>
   \<not> is_valid sample_certificate (today late_env) \<and>
   \<not> isl (verify_certificate ''CERT-202611-00001'' late_env sample_db) \<and>
   vr_days_until_expiry (projr (verify_certificate ''CERT-202611-00001'' late_env sample_db))
     = Some 0"
proof -
  have f: "scalar_one_or_none
             (filter (\<lambda>x. certificate_number x = ''CERT-202611-00001'') (certificates sample_db))
           = Inr (Some sample_certificate)"
    by (simp add: sample_db_def sample_certificate_def)
  have a: "certificate_asset sample_certificate sample_db = Some sample_asset"
    by (simp add: certificate_asset_def sample_db_def sample_asset_def sample_certificate_def)
  have i: "\<not> is_valid sample_certificate (today late_env)"
    by (simp add: is_valid_def late_env_def sample_env_def sample_certificate_def)
  have e1: "expiry_date sample_certificate = 740365"
    and e2: "expiry_date sample_certificate = 740366 - 1"
    by (simp_all add: sample_certificate_def)
  from days_until_expiry_exact [of sample_certificate 740365] e1
  have d0: "days_until_expiry sample_certificate 740365 = 0" by blast
  from days_until_expiry_exact [of sample_certificate 740366] e2
  have d1: "days_until_expiry sample_certificate 740366 = - 1" by blast
  from days_until_expiry_exact
         [of sample_certificate 0 "''CERT-202611-00001''" sample_db sample_asset late_env]
       f a i
  obtain v where "verify_certificate ''CERT-202611-00001'' late_env sample_db = Inr v"
    and "vr_days_until_expiry v = Some 0"
    by blast
  then show ?thesis using d0 d1 i by simp
qed

section \<open>Claims about the routes\<close>

lemma map_member: "x \<in> set xs \<Longrightarrow> f x \<in> set (map f xs)"
  by simp

text \<open>A query that returns a row selected exactly that row.\<close>

lemma scalar_one_or_none_Some: "scalar_one_or_none rows = Inr (Some x) \<Longrightarrow> rows = [x]"
  by (cases rows rule: scalar_one_or_none.cases) auto

lemma lookup_asset_id:
  assumes "lookup_asset i d = Inr (Some a)"
  shows "asset_id a = i \<and> a \<in> set (assets d)"
proof -
  let ?rows = "filter (\<lambda>a. asset_id a = i \<and> \<not> is_deleted a) (assets d)"
  from assms have "?rows = [a]"
    unfolding lookup_asset_def by (rule scalar_one_or_none_Some)
  then have "a \<in> set ?rows" by simp
  then show ?thesis by simp
qed

lemma update_asset_rows:
  "assets (update_asset a d) = map (\<lambda>x. if asset_id x = asset_id a then a else x) (assets d)"
  by (simp add: update_asset_def)

lemma update_certificate_assets: "assets (update_certificate c d) = assets d"
  by (simp add: update_certificate_def)

lemma insert_certificate_assets: "insert_certificate c d = Inr d1 \<Longrightarrow> assets d1 = assets d"
  by (auto simp: insert_certificate_def split: if_splits)

lemma insert_certificate_rows:
  "insert_certificate c d = Inr d1 \<Longrightarrow> certificates d1 = certificates d @ [c]"
  by (auto simp: insert_certificate_def split: if_splits)

lemma insert_certificate_fresh:
  "insert_certificate c d = Inr d1 \<Longrightarrow> x \<in> set (certificates d) \<Longrightarrow>
   certificate_id x \<noteq> certificate_id c \<and> certificate_number x \<noteq> certificate_number c"
  by (auto simp: insert_certificate_def list_ex_iff split: if_splits)

lemma update_asset_certificates: "certificates (update_asset a d) = certificates d"
  by (simp add: update_asset_def)

lemma generate_certificate_success:
  assumes "generate_certificate render e request u d = Inr (resp, d')"
  shows "\<exists>asset test d1 url hash cert.
           cert = new_certificate e request u (generate_certificate_number e d) (today e)
                    (today e + validity_days request) \<and>
           request_valid request \<and>
           lookup_asset (req_asset_id request) d = Inr (Some asset) \<and>
           insert_certificate cert d = Inr d1 \<and>
           render cert asset test = Some (url, hash) \<and>
           r_certificate resp = cert\<lparr>pdf_url := Some url, pdf_hash := Some hash\<rparr> \<and>
           d' = update_asset
                  (asset\<lparr>certificate_expiry_date := Some (today e + validity_days request),
                         last_inspection_date := Some (today e),
                         next_inspection_date := Some (today e + validity_days request - 30)\<rparr>)
                  (update_certificate (r_certificate resp) d1)"
  using assms
  apply (auto simp: generate_certificate_def Let_def
           split: if_splits sum.splits option.splits prod.splits)
  subgoal for a t d1 url hash
    by (intro exI [of _ t] exI [of _ url] exI [of _ hash]) simp
  done

lemma zero_pad_5_1: "zero_pad 5 (Suc 0) = ''00001''"
  by code_simp

lemma zero_pad_5_2: "zero_pad 5 (Suc (Suc 0)) = ''00002''"
  by code_simp

lemma issuance_ok: "\<not> isl sample_issuance"
  by (simp add: sample_issuance_def generate_certificate_def sample_user_def
        require_inspector_def sample_request_def request_valid_def lookup_asset_def
        sample_db_def sample_asset_def access_denied_def lookup_test_def Let_def
        insert_certificate_def new_certificate_def sample_env_def sample_certificate_def
        generate_certificate_number_def like_prefix_def zero_pad_5_2 sample_renderer_def)

text \<open>
  C5. A successful certificate generation had \<open>30 \<le> validity_days \<le> 730\<close>; the created
  certificate has \<open>issue_date = today\<close>, \<open>expiry_date = issue_date + validity_days\<close>, status
  "issued" and the caller's name as \<open>signed_by\<close>, and is stored; the asset is stored with
  \<open>certificate_expiry_date = expiry_date\<close>, \<open>last_inspection_date = issue_date\<close> and
  \<open>next_inspection_date = expiry_date - 30\<close>.
\<close>

theorem generate_certificate_dates:
  assumes ok: "generate_certificate render e request u d = Inr (resp, d')"
  shows "30 \<le> validity_days request \<and> validity_days request \<le> 730 \<and>
         issue_date (r_certificate resp) = today e \<and>
         expiry_date (r_certificate resp) = issue_date (r_certificate resp) + validity_days request \<and>
         c_status (r_certificate resp) = ISSUED \<and>
         signed_by (r_certificate resp) = Some (full_name u) \<and>
         r_certificate resp \<in> set (certificates d') \<and>
         (\<exists>a \<in> set (assets d'). asset_id a = req_asset_id request) \<and>
         (\<forall>a \<in> set (assets d'). asset_id a = req_asset_id request \<longrightarrow>
            certificate_expiry_date a = Some (expiry_date (r_certificate resp)) \<and>
            last_inspection_date a = Some (issue_date (r_certificate resp)) \<and>
            next_inspection_date a = Some (expiry_date (r_certificate resp) - 30))"
proof -
  from generate_certificate_success [OF ok]
  obtain asset test d1 url hash cert where
    cert: "cert = new_certificate e request u (generate_certificate_number e d) (today e)
                    (today e + validity_days request)"
    and valid: "request_valid request"
    and found: "lookup_asset (req_asset_id request) d = Inr (Some asset)"
    and ins: "insert_certificate cert d = Inr d1"
    and rendered: "render cert asset test = Some (url, hash)"
    and resp: "r_certificate resp = cert\<lparr>pdf_url := Some url, pdf_hash := Some hash\<rparr>"
    and d': "d' = update_asset
                  (asset\<lparr>certificate_expiry_date := Some (today e + validity_days request),
                         last_inspection_date := Some (today e),
                         next_inspection_date := Some (today e + validity_days request - 30)\<rparr>)
                  (update_certificate (r_certificate resp) d1)"
    by blast
  have fields: "issue_date (r_certificate resp) = today e"
    "expiry_date (r_certificate resp) = today e + validity_days request"
    "c_status (r_certificate resp) = ISSUED"
    "signed_by (r_certificate resp) = Some (full_name u)"
    "certificate_id (r_certificate resp) = certificate_id cert"
    by (simp_all add: resp cert new_certificate_def)
  have bounds: "30 \<le> validity_days request \<and> validity_days request \<le> 730"
    using valid by (simp add: request_valid_def)
  from lookup_asset_id [OF found]
  have aid: "asset_id asset = req_asset_id request" and amem: "asset \<in> set (assets d)"
    by simp_all
  have rows: "assets d' = map (\<lambda>x. if asset_id x = req_asset_id request
        then asset\<lparr>certificate_expiry_date := Some (today e + validity_days request),
                   last_inspection_date := Some (today e),
                   next_inspection_date := Some (today e + validity_days request - 30)\<rparr>
        else x) (assets d)"
    by (simp add: d' update_asset_rows update_certificate_assets
          insert_certificate_assets [OF ins] aid)
  have ex: "\<exists>a \<in> set (assets d'). asset_id a = req_asset_id request"
  proof -
    let ?f = "\<lambda>x. if asset_id x = req_asset_id request
        then asset\<lparr>certificate_expiry_date := Some (today e + validity_days request),
                   last_inspection_date := Some (today e),
                   next_inspection_date := Some (today e + validity_days request - 30)\<rparr>
        else x"
    have "?f asset \<in> set (assets d')" unfolding rows using amem by (rule map_member)
    moreover have "asset_id (?f asset) = req_asset_id request" using aid by simp
    ultimately show ?thesis by blast
  qed
  have all: "\<forall>a \<in> set (assets d'). asset_id a = req_asset_id request \<longrightarrow>
            certificate_expiry_date a = Some (expiry_date (r_certificate resp)) \<and>
            last_inspection_date a = Some (issue_date (r_certificate resp)) \<and>
            next_inspection_date a = Some (expiry_date (r_certificate resp) - 30)"
    unfolding rows fields by auto
  have "certificates d' =
      map (\<lambda>x. if certificate_id x = certificate_id cert then r_certificate resp else x)
        (certificates d @ [cert])"
    by (simp add: d' update_asset_certificates update_certificate_def
          insert_certificate_rows [OF ins] fields)
  then have mem: "r_certificate resp \<in> set (certificates d')" by simp
  show ?thesis using bounds fields(1-4) mem ex all by simp
qed

theorem generate_certificate_dates_witness:
  "validity_days sample_request = 365 \<and> today sample_env = 740000 \<and>
   \<not> isl sample_issuance \<and>
   issue_date (r_certificate (fst (projr sample_issuance))) = 740000 \<and>
   expiry_date (r_certificate (fst (projr sample_issuance))) = 740365 \<and>
   c_status (r_certificate (fst (projr sample_issuance))) = ISSUED \<and>
   signed_by (r_certificate (fst (projr sample_issuance))) = Some ''Ada'' \<and>
   r_certificate (fst (projr sample_issuance)) \<in> set (certificates (snd (projr sample_issuance)))"
proof -
  have ok: "generate_certificate sample_renderer sample_env sample_request sample_user sample_db
              = Inr (fst (projr sample_issuance), snd (projr sample_issuance))"
    using issuance_ok by (simp add: sample_issuance_def)
  from generate_certificate_dates [OF ok] issuance_ok show ?thesis
    by (simp add: sample_request_def sample_env_def sample_user_def)
qed

lemma filter_replace:
  "f c' = k \<Longrightarrow>
   filter (\<lambda>x. f x = k) (map (\<lambda>x. if f x = k then c' else x) xs)
     = map (\<lambda>_. c') (filter (\<lambda>x. f x = k) xs)"
  by (induction xs) auto

lemma lookup_after_update:
  assumes "scalar_one_or_none (filter (\<lambda>x. certificate_id x = cid) (certificates d)) = Inr (Some c)"
    and "certificate_id c' = cid"
  shows "scalar_one_or_none (filter (\<lambda>x. certificate_id x = cid)
           (certificates (update_certificate c' d))) = Inr (Some c')"
proof -
  from assms(1) have "filter (\<lambda>x. certificate_id x = cid) (certificates d) = [c]"
    by (rule scalar_one_or_none_Some)
  then show ?thesis
    by (simp add: update_certificate_def assms(2) filter_replace)
qed

lemma found_id:
  assumes "scalar_one_or_none (filter (\<lambda>x. certificate_id x = cid) (certificates d)) = Inr (Some c)"
  shows "certificate_id c = cid"
proof -
  from assms have "filter (\<lambda>x. certificate_id x = cid) (certificates d) = [c]"
    by (rule scalar_one_or_none_Some)
  then have "c \<in> set (filter (\<lambda>x. certificate_id x = cid) (certificates d))" by simp
  then show ?thesis by simp
qed

lemma revoke_certificate_found:
  assumes "scalar_one_or_none (filter (\<lambda>x. certificate_id x = cid) (certificates d)) = Inr (Some c)"
    and "require_inspector u"
    and "related_access_denied u (certificate_asset c d) = Inr False"
  shows "\<exists>c'. revoke_certificate cid reason u d = Inr (c', update_certificate c' d) \<and>
           certificate_id c' = cid \<and> c_asset_id c' = c_asset_id c \<and> c_status c' = REVOKED \<and>
           c_notes c' = (case reason of None \<Rightarrow> c_notes c
                         | Some r \<Rightarrow> if r = [] then c_notes c
                                     else Some (revoked_notes (c_notes c) r))"
  using assms found_id [OF assms(1)]
  by (simp add: revoke_certificate_def Let_def split: option.splits)

lemma certificate_asset_update:
  "c_asset_id c' = c_asset_id c \<Longrightarrow>
   certificate_asset c' (update_certificate x d) = certificate_asset c d"
  by (simp add: certificate_asset_def update_certificate_def)

text \<open>A successful revocation rewrites the rows with the given id and only them.\<close>

lemma revoke_certificate_rows:
  assumes "revoke_certificate cid reason u d = Inr (c', d')"
  shows "c_status c' = REVOKED \<and>
         certificates d' = map (\<lambda>x. if certificate_id x = cid then c' else x) (certificates d)"
proof -
  from assms obtain c where
    f: "scalar_one_or_none (filter (\<lambda>x. certificate_id x = cid) (certificates d)) = Inr (Some c)"
    and i: "require_inspector u"
    and a: "related_access_denied u (certificate_asset c d) = Inr False"
    by (auto simp: revoke_certificate_def Let_def
          split: if_splits sum.splits option.splits bool.splits)
  from revoke_certificate_found [OF f i a, of reason] assms
  show ?thesis by (auto simp: update_certificate_def)
qed

lemma revoke_keeps_revoked:
  assumes "revoke_certificate cid reason u d = Inr (c', d')"
  shows "length (certificates d') = length (certificates d) \<and>
         (\<forall>i < length (certificates d).
            c_status (certificates d ! i) = REVOKED \<longrightarrow>
            c_status (certificates d' ! i) = REVOKED)"
  using revoke_certificate_rows [OF assms] by simp

text \<open>A successful generation appends the new certificate and keeps the stored rows.\<close>

lemma generate_certificate_rows:
  assumes ok: "generate_certificate render e request u d = Inr (resp, d')"
  shows "certificates d' = certificates d @ [r_certificate resp]"
proof -
  from generate_certificate_success [OF ok]
  obtain asset and test :: "Test option" and d1 url hash cert where
    ins: "insert_certificate cert d = Inr d1"
    and resp: "r_certificate resp = cert\<lparr>pdf_url := Some url, pdf_hash := Some hash\<rparr>"
    and d': "d' = update_asset
                  (asset\<lparr>certificate_expiry_date := Some (today e + validity_days request),
                         last_inspection_date := Some (today e),
                         next_inspection_date := Some (today e + validity_days request - 30)\<rparr>)
                  (update_certificate (r_certificate resp) d1)"
    by blast
  have id: "certificate_id (r_certificate resp) = certificate_id cert" by (simp add: resp)
  have old: "map (\<lambda>x. if certificate_id x = certificate_id cert then r_certificate resp else x)
               (certificates d) = certificates d"
    using insert_certificate_fresh [OF ins] by (induction "certificates d") (auto intro: map_idI)
  show ?thesis
    by (simp add: d' update_asset_certificates update_certificate_def
          insert_certificate_rows [OF ins] id old)
qed

text \<open>
  C6, as stated, on the sample store: the issued certificate 2 is revoked with the reason
  "found crack"; a second revoke request on the same certificate is not rejected: it
  succeeds, the status stays "revoked" and the reason is appended again, in the returned
  certificate and in the stored row.
\<close>

theorem revoke_twice_counterexample:
  "\<not> isl revoked_once \<and> c_status (fst (projr revoked_once)) = REVOKED \<and>
   \<not> isl revoked_twice \<and> c_status (fst (projr revoked_twice)) = REVOKED \<and>
   c_notes (fst (projr revoked_twice))
     = Some ([CHR 0x0A] @ ''Revoked: found crack'' @ [CHR 0x0A] @ ''Revoked: found crack'') \<and>
   certificates (snd (projr revoked_twice)) = [fst (projr revoked_twice)]"
  by (simp add: revoked_twice_def revoked_once_def revoke_certificate_def sample_db_def
        sample_certificate_def sample_user_def sample_asset_def require_inspector_def
        related_access_denied_def certificate_asset_def update_certificate_def Let_def
        revoked_notes_def)

text \<open>
  C6, amended. Revoking a certificate (an issued one in particular) with a non-empty
  reason sets its status to "revoked", appends the reason to its notes and makes
  \<open>is_valid\<close> false; the revoked certificate replaces the stored row with that id, and
  the other rows stay. A subsequent revoke request on the same certificate is accepted:
  it leaves the status "revoked", appends its own reason (when it has a non-empty one) to
  the notes of the first revocation, and stores that row in turn. No revoke request
  changes a stored revoked row to another status, and certificate generation only
  appends a row.
\<close>

theorem revoke_certificate_effect:
  assumes found: "scalar_one_or_none (filter (\<lambda>x. certificate_id x = cid) (certificates d))
                    = Inr (Some c)"
    and insp: "require_inspector u"
    and acc: "related_access_denied u (certificate_asset c d) = Inr False"
    and reason: "reason \<noteq> []"
  shows "\<exists>c' d'. revoke_certificate cid (Some reason) u d = Inr (c', d') \<and>
           c_status c' = REVOKED \<and>
           c_notes c' = Some (revoked_notes (c_notes c) reason) \<and>
           (\<forall>day. \<not> is_valid c' day) \<and>
           certificates d' = map (\<lambda>x. if certificate_id x = cid then c' else x) (certificates d) \<and>
           scalar_one_or_none (filter (\<lambda>x. certificate_id x = cid) (certificates d'))
             = Inr (Some c') \<and>
           (\<forall>again. \<exists>c'' d''. revoke_certificate cid again u d' = Inr (c'', d'') \<and>
                       c_status c'' = REVOKED \<and>
                       c_notes c'' = (case again of
                                        None \<Rightarrow> c_notes c'
                                      | Some r \<Rightarrow> if r = [] then c_notes c'
                                                  else Some (revoked_notes (c_notes c') r)) \<and>
                       certificates d''
                         = map (\<lambda>x. if certificate_id x = cid then c'' else x) (certificates d') \<and>
                       scalar_one_or_none
                         (filter (\<lambda>x. certificate_id x = cid) (certificates d''))
                         = Inr (Some c'')) \<and>
           (\<forall>cid2 again u2 c2 d2.
              revoke_certificate cid2 again u2 d' = Inr (c2, d2) \<longrightarrow>
              length (certificates d2) = length (certificates d') \<and>
              (\<forall>i < length (certificates d').
                 c_status (certificates d' ! i) = REVOKED \<longrightarrow>
                 c_status (certificates d2 ! i) = REVOKED)) \<and>
           (\<forall>render e request u2 resp d2.
              generate_certificate render e request u2 d' = Inr (resp, d2) \<longrightarrow>
              certificates d2 = certificates d' @ [r_certificate resp])"
proof -
  from revoke_certificate_found [OF found insp acc, of "Some reason"] reason
  obtain c' where
    first: "revoke_certificate cid (Some reason) u d = Inr (c', update_certificate c' d)"
    and id: "certificate_id c' = cid" and aid: "c_asset_id c' = c_asset_id c"
    and st: "c_status c' = REVOKED"
    and nt: "c_notes c' = Some (revoked_notes (c_notes c) reason)"
    by auto
  let ?d' = "update_certificate c' d"
  have rows: "certificates ?d'
      = map (\<lambda>x. if certificate_id x = cid then c' else x) (certificates d)"
    by (simp add: update_certificate_def id)
  have found': "scalar_one_or_none (filter (\<lambda>x. certificate_id x = cid) (certificates ?d'))
                  = Inr (Some c')"
    by (rule lookup_after_update [OF found id])
  have acc': "related_access_denied u (certificate_asset c' ?d') = Inr False"
    using acc by (simp add: certificate_asset_update [OF aid])
  have second: "\<exists>c'' d''. revoke_certificate cid again u ?d' = Inr (c'', d'') \<and>
                  c_status c'' = REVOKED \<and>
                  c_notes c'' = (case again of
                                   None \<Rightarrow> c_notes c'
                                 | Some r \<Rightarrow> if r = [] then c_notes c'
                                             else Some (revoked_notes (c_notes c') r)) \<and>
                  certificates d''
                    = map (\<lambda>x. if certificate_id x = cid then c'' else x) (certificates ?d') \<and>
                  scalar_one_or_none (filter (\<lambda>x. certificate_id x = cid) (certificates d''))
                    = Inr (Some c'')" for again
  proof -
    from revoke_certificate_found [OF found' insp acc', of again]
    obtain c'' where
      r: "revoke_certificate cid again u ?d' = Inr (c'', update_certificate c'' ?d')"
      and id'': "certificate_id c'' = cid" and st'': "c_status c'' = REVOKED"
      and nt'': "c_notes c'' = (case again of
                                   None \<Rightarrow> c_notes c'
                                 | Some r \<Rightarrow> if r = [] then c_notes c'
                                             else Some (revoked_notes (c_notes c') r))"
      by blast
    have rows'': "certificates (update_certificate c'' ?d')
        = map (\<lambda>x. if certificate_id x = cid then c'' else x) (certificates ?d')"
      by (simp add: update_certificate_def id'')
    have stored'': "scalar_one_or_none
        (filter (\<lambda>x. certificate_id x = cid) (certificates (update_certificate c'' ?d')))
        = Inr (Some c'')"
      by (rule lookup_after_update [OF found' id''])
    from r st'' nt'' rows'' stored'' show ?thesis by blast
  qed
  have inv: "\<not> is_valid c' day" for day by (simp add: is_valid_def st)
  have keep: "length (certificates d2) = length (certificates ?d') \<and>
              (\<forall>i < length (certificates ?d').
                 c_status (certificates ?d' ! i) = REVOKED \<longrightarrow>
                 c_status (certificates d2 ! i) = REVOKED)"
    if "revoke_certificate cid2 again u2 ?d' = Inr (c2, d2)" for cid2 again u2 c2 d2
    using that by (rule revoke_keeps_revoked)
  have gen: "certificates d2 = certificates ?d' @ [r_certificate resp]"
    if "generate_certificate render e request u2 ?d' = Inr (resp, d2)"
    for render e request u2 resp d2
    using that by (rule generate_certificate_rows)
  show ?thesis
    apply (intro exI [of _ c'] exI [of _ ?d'] conjI)
    using first st nt inv rows found' second keep gen by blast+
qed

theorem revoke_certificate_effect_witness:
  "c_status sample_certificate = ISSUED \<and> is_valid sample_certificate 740000 \<and>
   \<not> isl revoked_once \<and>
   c_status (fst (projr revoked_once)) = REVOKED \<and>
   c_notes (fst (projr revoked_once)) = Some (revoked_notes None ''found crack'') \<and>
   \<not> is_valid (fst (projr revoked_once)) 740000 \<and>
   certificates (snd (projr revoked_once)) = [fst (projr revoked_once)]"
proof -
  have f: "scalar_one_or_none (filter (\<lambda>x. certificate_id x = 2) (certificates sample_db))
             = Inr (Some sample_certificate)"
    by (simp add: sample_db_def sample_certificate_def)
  have i: "require_inspector sample_user"
    by (simp add: require_inspector_def sample_user_def)
  have a: "related_access_denied sample_user (certificate_asset sample_certificate sample_db)
             = Inr False"
    by (simp add: related_access_denied_def certificate_asset_def sample_db_def
          sample_asset_def sample_certificate_def sample_user_def)
  have r: "''found crack'' \<noteq> []" by simp
  from revoke_certificate_effect [OF f i a r]
  obtain c' d' where
    "revoke_certificate 2 (Some ''found crack'') sample_user sample_db = Inr (c', d')"
    and "c_status c' = REVOKED"
    and "c_notes c' = Some (revoked_notes (c_notes sample_certificate) ''found crack'')"
    and "\<forall>day. \<not> is_valid c' day"
    and "certificates d'
           = map (\<lambda>x. if certificate_id x = 2 then c' else x) (certificates sample_db)"
    by blast
  then show ?thesis
    by (simp add: revoked_once_def)
       (simp add: sample_certificate_def sample_db_def is_valid_def)
qed

section \<open>Claims about the test routes\<close>

lemma insert_test_rows: "insert_test t d = Inr d1 \<Longrightarrow> tests d1 = tests d @ [t]"
  by (auto simp: insert_test_def split: if_splits)

lemma create_test_success:
  assumes "create_test e tc u d = Inr (t, d')"
  shows "t_status t = SCHEDULED \<and> result t = PENDING \<and> \<not> is_validated t \<and>
         tests d' = tests d @ [t]"
  using assms
  by (auto simp: create_test_def Let_def insert_test_def
           split: if_splits sum.splits option.splits)

text \<open>The validator reads the loads, the percentage, the measured values and the defects only.\<close>

lemma validate_cong:
  assumes "safe_working_load t = safe_working_load t'"
    and "test_load t = test_load t'"
    and "test_load_percentage t = test_load_percentage t'"
    and "measured_values t = measured_values t'"
    and "defects_found t = defects_found t'"
  shows "validate_test_result lle t = validate_test_result lle t'"
proof -
  have m: "measured_of t = measured_of t'" by (simp add: measured_of_def assms)
  have e: "expected_test_load t = expected_test_load t'"
    by (simp add: expected_test_load_def assms)
  have h: "has_defects t = has_defects t'" by (simp add: has_defects_def assms)
  have "run_checks lle t = run_checks lle t'"
    unfolding run_checks_def load_check_def deflection_check_def visual_check_def
      deformation_check_def brake_check_def accuracy_check_def m e h assms(2)
    by (rule refl)
  then show ?thesis by (simp add: validate_test_result_def)
qed

lemma validate_ignores_bookkeeping:
  "validate_test_result lle (t\<lparr>result := r, is_validated := b, validated_by := w\<rparr>)
     = validate_test_result lle t"
  by (rule validate_cong) simp_all

lemma submit_test_results_success:
  assumes "submit_test_results lle e ts u d = Inr (tv, d')"
  shows "\<exists>t v. tests d' = tests d @ [t] \<and> test_id t = tv_test_id tv \<and>
           t_status t = COMPLETED \<and> is_validated t \<and> result t = tv_result tv \<and>
           validate_test_result lle t = Inr v \<and> result t = v_result v"
proof -
  from assms obtain t0 v d1 a where
    v: "validate_test_result lle t0 = Inr v"
    and st: "t_status t0 = COMPLETED"
    and ins: "insert_test (t0\<lparr>result := v_result v, is_validated := True,
                               validated_by := Some ''System Auto-Validation''\<rparr>) d = Inr d1"
    and tv: "tv_test_id tv = test_id t0" "tv_result tv = v_result v"
    and d': "d' = update_asset a d1"
    by (auto simp: submit_test_results_def Let_def
          split: if_splits sum.splits option.splits)
  let ?t = "t0\<lparr>result := v_result v, is_validated := True,
                validated_by := Some ''System Auto-Validation''\<rparr>"
  have "tests d' = tests d @ [?t]"
    by (simp add: d' update_asset_def insert_test_rows [OF ins])
  moreover have "validate_test_result lle ?t = Inr v"
    by (simp add: validate_ignores_bookkeeping v)
  ultimately show ?thesis using st tv
    by (intro exI [of _ ?t] exI [of _ v]) simp
qed

lemma found_test_id:
  assumes "scalar_one_or_none (filter (\<lambda>x. test_id x = tid) (tests d)) = Inr (Some t)"
  shows "test_id t = tid"
proof -
  from assms have "filter (\<lambda>x. test_id x = tid) (tests d) = [t]"
    by (rule scalar_one_or_none_Some)
  then have "t \<in> set (filter (\<lambda>x. test_id x = tid) (tests d))" by simp
  then show ?thesis by simp
qed

lemma test_lookup_after_update:
  assumes "scalar_one_or_none (filter (\<lambda>x. test_id x = tid) (tests d)) = Inr (Some t)"
    and "test_id t' = tid"
  shows "scalar_one_or_none
           (filter (\<lambda>x. test_id x = tid) (map (\<lambda>x. if test_id x = tid then t' else x) (tests d)))
         = Inr (Some t')"
proof -
  from assms(1) have "filter (\<lambda>x. test_id x = tid) (tests d) = [t]"
    by (rule scalar_one_or_none_Some)
  then show ?thesis by (simp add: assms(2) filter_replace)
qed

lemma validate_test_success:
  assumes "validate_test lle tid u d = Inr (tv, d')"
  shows "\<exists>t0 v. scalar_one_or_none (filter (\<lambda>x. test_id x = tid) (tests d)) = Inr (Some t0) \<and>
           validate_test_result lle t0 = Inr v \<and>
           tv_result tv = v_result v \<and>
           tests d' = map (\<lambda>x. if test_id x = tid
                                then t0\<lparr>result := v_result v, is_validated := True,
                                        validated_by := Some (full_name u)\<rparr>
                                else x) (tests d)"
proof -
  from assms obtain t0 v where
    f: "scalar_one_or_none (filter (\<lambda>x. test_id x = tid) (tests d)) = Inr (Some t0)"
    and v: "validate_test_result lle t0 = Inr v"
    and tv: "tv_result tv = v_result v"
    and d': "d' = update_test_row (t0\<lparr>result := v_result v, is_validated := True,
                                      validated_by := Some (full_name u)\<rparr>) d"
    by (auto simp: validate_test_def Let_def
          split: if_splits sum.splits option.splits bool.splits)
  from found_test_id [OF f] f v tv show ?thesis
    by (intro exI [of _ t0] exI [of _ v]) (simp add: d' update_test_row_def)
qed

lemma apply_update_fields:
  "is_validated (apply_update upd t) = is_validated t \<and>
   result (apply_update upd t) = set_or_keep (tu_result upd) (result t) \<and>
   t_status (apply_update upd t) = set_or_keep (tu_status upd) (t_status t) \<and>
   test_id (apply_update upd t) = test_id t"
  by (simp add: apply_update_def)

lemma update_test_success:
  assumes "update_test tid upd u d = Inr (t', d')"
  shows "\<exists>t0. scalar_one_or_none (filter (\<lambda>x. test_id x = tid) (tests d)) = Inr (Some t0) \<and>
           t' = apply_update upd t0 \<and>
           tests d' = map (\<lambda>x. if test_id x = tid then t' else x) (tests d)"
proof -
  from assms obtain t0 where
    f: "scalar_one_or_none (filter (\<lambda>x. test_id x = tid) (tests d)) = Inr (Some t0)"
    and t': "t' = apply_update upd t0"
    and d': "d' = update_test_row t' d"
    by (auto simp: update_test_def Let_def
          split: if_splits sum.splits option.splits bool.splits)
  from found_test_id [OF f] have "test_id t' = tid" by (simp add: t' apply_update_fields)
  with f t' show ?thesis by (simp add: d' update_test_row_def)
qed

text \<open>
  C7, as stated, on a store with one scheduled, unvalidated test: an update that sends
  only \<open>result = pass\<close> is accepted and leaves the stored test with a non-pending result
  and \<open>is_validated\<close> false; a validate request on the scheduled test is accepted and
  marks it validated while its status is still "scheduled".
\<close>

theorem unvalidated_result_counterexample:
  "t_status (hd (tests scheduled_db)) = SCHEDULED \<and>
   \<not> isl updated_scheduled \<and>
   length (tests (snd (projr updated_scheduled))) = 1 \<and>
   result (hd (tests (snd (projr updated_scheduled)))) = PASS \<and>
   \<not> is_validated (hd (tests (snd (projr updated_scheduled)))) \<and>
   \<not> isl validated_scheduled \<and>
   length (tests (snd (projr validated_scheduled))) = 1 \<and>
   t_status (hd (tests (snd (projr validated_scheduled)))) = SCHEDULED \<and>
   is_validated (hd (tests (snd (projr validated_scheduled)))) \<and>
   result (hd (tests (snd (projr validated_scheduled)))) = PASS"
proof -
  have v: "validate_test_result sample_list_le (sample_test\<lparr>t_status := SCHEDULED\<rparr>)
      = validate_test_result sample_list_le sample_test"
    by (rule validate_cong) simp_all
  show ?thesis
    by (simp add: updated_scheduled_def validated_scheduled_def scheduled_db_def
          verdict_only_update_def sample_user_def sample_asset_def update_test_def
          validate_test_def require_inspector_def related_access_denied_def test_asset_def
          apply_update_def set_or_keep_def update_test_row_def Let_def v sample_eval)
       (simp add: sample_test_def)
qed

text \<open>
  C7, amended. Create stores a scheduled test with a pending result and \<open>is_validated\<close>
  false. Field submit, when the validator returns, stores a test with status "completed",
  \<open>is_validated\<close> true and the validator's verdict as its result. Validate, when the
  validator returns, replaces the stored test by one with \<open>is_validated\<close> true and the
  validator's verdict as its result, whatever the test's status, which it leaves as it
  was. So after create, field submit and validate the result of the stored test is
  non-pending only when \<open>is_validated\<close> is true. Update replaces the stored test by one
  with \<open>is_validated\<close> as it was and the result it is sent: the stored test then has a
  non-pending result only when it is validated exactly when the update sent a pending
  result, or sent no result for a test whose result was pending, or the test was
  validated before.
\<close>

theorem test_operations_invariant:
  "(create_test e tc u d = Inr (t, d') \<longrightarrow>
      t_status t = SCHEDULED \<and> result t = PENDING \<and> \<not> is_validated t \<and>
      tests d' = tests d @ [t]) \<and>
   (submit_test_results lle e ts u d = Inr (tv, d') \<longrightarrow>
      (\<exists>t v. tests d' = tests d @ [t] \<and> test_id t = tv_test_id tv \<and>
           t_status t = COMPLETED \<and> is_validated t \<and> result t = tv_result tv \<and>
           validate_test_result lle t = Inr v \<and> result t = v_result v)) \<and>
   (validate_test lle tid u d = Inr (tv, d') \<longrightarrow>
      (\<exists>t0 v. scalar_one_or_none (filter (\<lambda>x. test_id x = tid) (tests d)) = Inr (Some t0) \<and>
            validate_test_result lle t0 = Inr v \<and>
            tv_result tv = v_result v \<and>
            tests d' = map (\<lambda>x. if test_id x = tid
                                 then t0\<lparr>result := v_result v, is_validated := True,
                                         validated_by := Some (full_name u)\<rparr>
                                 else x) (tests d) \<and>
            (\<forall>x \<in> set (tests d'). test_id x = tid \<longrightarrow>
               is_validated x \<and> result x = v_result v \<and> t_status x = t_status t0))) \<and>
   (update_test tid upd u d = Inr (t', d') \<longrightarrow>
      (\<exists>t0. scalar_one_or_none (filter (\<lambda>x. test_id x = tid) (tests d)) = Inr (Some t0) \<and>
            tests d' = map (\<lambda>x. if test_id x = tid then t' else x) (tests d) \<and>
            scalar_one_or_none (filter (\<lambda>x. test_id x = tid) (tests d')) = Inr (Some t') \<and>
            is_validated t' = is_validated t0 \<and>
            result t' = set_or_keep (tu_result upd) (result t0) \<and>
            ((result t' \<noteq> PENDING \<longrightarrow> is_validated t')
             \<longleftrightarrow> (tu_result upd = Some PENDING
                  \<or> (tu_result upd = None \<and> result t0 = PENDING)
                  \<or> is_validated t0))))"
proof -
  have c: "t_status t = SCHEDULED \<and> result t = PENDING \<and> \<not> is_validated t \<and>
      tests d' = tests d @ [t]"
    if "create_test e tc u d = Inr (t, d')"
    using that by (rule create_test_success)
  have s: "\<exists>t v. tests d' = tests d @ [t] \<and> test_id t = tv_test_id tv \<and>
           t_status t = COMPLETED \<and> is_validated t \<and> result t = tv_result tv \<and>
           validate_test_result lle t = Inr v \<and> result t = v_result v"
    if "submit_test_results lle e ts u d = Inr (tv, d')"
    using that by (rule submit_test_results_success)
  have v: "\<exists>t0 v. scalar_one_or_none (filter (\<lambda>x. test_id x = tid) (tests d)) = Inr (Some t0) \<and>
            validate_test_result lle t0 = Inr v \<and>
            tv_result tv = v_result v \<and>
            tests d' = map (\<lambda>x. if test_id x = tid
                                 then t0\<lparr>result := v_result v, is_validated := True,
                                         validated_by := Some (full_name u)\<rparr>
                                 else x) (tests d) \<and>
            (\<forall>x \<in> set (tests d'). test_id x = tid \<longrightarrow>
               is_validated x \<and> result x = v_result v \<and> t_status x = t_status t0)"
    if ok: "validate_test lle tid u d = Inr (tv, d')"
  proof -
    from validate_test_success [OF ok] obtain t0 v where
      f: "scalar_one_or_none (filter (\<lambda>x. test_id x = tid) (tests d)) = Inr (Some t0)"
      and vr: "validate_test_result lle t0 = Inr v"
      and r: "tv_result tv = v_result v"
      and rows: "tests d' = map (\<lambda>x. if test_id x = tid
                                 then t0\<lparr>result := v_result v, is_validated := True,
                                         validated_by := Some (full_name u)\<rparr>
                                 else x) (tests d)"
      by blast
    from found_test_id [OF f] have id: "test_id t0 = tid" .
    have "\<forall>x \<in> set (tests d'). test_id x = tid \<longrightarrow>
               is_validated x \<and> result x = v_result v \<and> t_status x = t_status t0"
      unfolding rows by (auto simp: id)
    with f vr r rows show ?thesis by blast
  qed
  have p: "\<exists>t0. scalar_one_or_none (filter (\<lambda>x. test_id x = tid) (tests d)) = Inr (Some t0) \<and>
            tests d' = map (\<lambda>x. if test_id x = tid then t' else x) (tests d) \<and>
            scalar_one_or_none (filter (\<lambda>x. test_id x = tid) (tests d')) = Inr (Some t') \<and>
            is_validated t' = is_validated t0 \<and>
            result t' = set_or_keep (tu_result upd) (result t0) \<and>
            ((result t' \<noteq> PENDING \<longrightarrow> is_validated t')
             \<longleftrightarrow> (tu_result upd = Some PENDING
                  \<or> (tu_result upd = None \<and> result t0 = PENDING)
                  \<or> is_validated t0))"
    if ok: "update_test tid upd u d = Inr (t', d')"
  proof -
    from update_test_success [OF ok] obtain t0 where
      f: "scalar_one_or_none (filter (\<lambda>x. test_id x = tid) (tests d)) = Inr (Some t0)"
      and t': "t' = apply_update upd t0"
      and rows: "tests d' = map (\<lambda>x. if test_id x = tid then t' else x) (tests d)"
      by blast
    from found_test_id [OF f] have id: "test_id t' = tid" by (simp add: t' apply_update_fields)
    have stored: "scalar_one_or_none (filter (\<lambda>x. test_id x = tid) (tests d')) = Inr (Some t')"
      unfolding rows by (rule test_lookup_after_update [OF f id])
    have a: "is_validated t' = is_validated t0"
      and b: "result t' = set_or_keep (tu_result upd) (result t0)"
      by (simp_all add: t' apply_update_fields)
    have "(result t' \<noteq> PENDING \<longrightarrow> is_validated t')
             \<longleftrightarrow> (tu_result upd = Some PENDING
                  \<or> (tu_result upd = None \<and> result t0 = PENDING)
                  \<or> is_validated t0)"
      unfolding a b by (cases "tu_result upd") (auto simp: set_or_keep_def)
    with f rows stored a b show ?thesis by blast
  qed
  show ?thesis using c s v p by blast
qed

theorem test_operations_invariant_witness:
  "\<not> isl created \<and> result (fst (projr created)) = PENDING \<and>
   \<not> is_validated (fst (projr created)) \<and>
   \<not> isl submitted \<and> is_validated (last (tests (snd (projr submitted)))) \<and>
   t_status (last (tests (snd (projr submitted)))) = COMPLETED \<and>
   \<not> isl validated_scheduled \<and>
   list_all is_validated (tests (snd (projr validated_scheduled))) \<and>
   \<not> isl updated_scheduled \<and>
   tests (snd (projr updated_scheduled)) = [fst (projr updated_scheduled)] \<and>
   result (fst (projr updated_scheduled)) = PASS \<and>
   \<not> is_validated (fst (projr updated_scheduled))"
proof -
  have ve: "validate_test_result sample_list_le (sample_test\<lparr>t_status := SCHEDULED\<rparr>)
      = validate_test_result sample_list_le sample_test"
    by (rule validate_cong) simp_all
  have vs: "validate_test_result sample_list_le
       \<lparr>test_id = i, test_number = n, t_asset_id = a, t_status = COMPLETED, result = PENDING,
        safe_working_load = Some (Finite 10), test_load = Some (Finite 13),
        test_load_percentage = None, measured_values = Some Map.empty, defects_found = None,
        is_validated = False, validated_by = None\<rparr>
      = validate_test_result sample_list_le (sample_test\<lparr>test_load_percentage := None\<rparr>)"
    for i n a
    by (rule validate_cong) (simp_all add: sample_test_def)
  have "\<exists>vv. validate_test_result sample_list_le
                (sample_test\<lparr>test_load_percentage := None\<rparr>) = Inr vv"
    by (simp add: sample_test_def run_checks_mandatory validate_test_result_def measured_of_def)
  then obtain vv where
    vn: "validate_test_result sample_list_le (sample_test\<lparr>test_load_percentage := None\<rparr>)
           = Inr vv"
    by blast
  have c0: "\<not> isl created"
    by (simp add: created_def create_test_def sample_user_def require_inspector_def
          lookup_asset_def sample_db_def sample_asset_def sample_create_def access_denied_def
          insert_test_def sample_env_def Let_def)
  have s0: "\<not> isl submitted"
    by (simp add: submitted_def submit_test_results_def sample_user_def require_inspector_def
          submitted_asset_id_def sample_submit_def lookup_asset_def sample_db_def
          sample_asset_def access_denied_def insert_test_def sample_env_def Let_def vs vn)
  have v0: "\<not> isl validated_scheduled"
    by (simp add: validated_scheduled_def validate_test_def scheduled_db_def sample_user_def
          require_inspector_def related_access_denied_def test_asset_def sample_asset_def
          Let_def ve sample_eval)
       (simp add: sample_test_def)
  have u0: "\<not> isl updated_scheduled"
    by (simp add: updated_scheduled_def update_test_def scheduled_db_def sample_user_def
          require_inspector_def related_access_denied_def test_asset_def sample_asset_def
          sample_test_def Let_def)
  have f: "scalar_one_or_none (filter (\<lambda>x. test_id x = 1) (tests scheduled_db))
             = Inr (Some (sample_test\<lparr>t_status := SCHEDULED\<rparr>))"
    by (simp add: scheduled_db_def sample_test_def)
  have ids: "\<forall>x \<in> set (tests (snd (projr validated_scheduled))). test_id x = 1"
    by (simp add: validated_scheduled_def validate_test_def scheduled_db_def sample_user_def
          require_inspector_def related_access_denied_def test_asset_def sample_asset_def
          update_test_row_def Let_def ve sample_eval)
       (simp add: sample_test_def)
  have c1: "create_test sample_env sample_create sample_user sample_db
              = Inr (fst (projr created), snd (projr created))"
    using c0 by (simp add: created_def)
  have s1: "submit_test_results sample_list_le sample_env sample_submit sample_user sample_db
              = Inr (fst (projr submitted), snd (projr submitted))"
    using s0 by (simp add: submitted_def)
  have v1: "validate_test sample_list_le 1 sample_user scheduled_db
              = Inr (fst (projr validated_scheduled), snd (projr validated_scheduled))"
    using v0 by (simp add: validated_scheduled_def)
  have u1: "update_test 1 verdict_only_update sample_user scheduled_db
              = Inr (fst (projr updated_scheduled), snd (projr updated_scheduled))"
    using u0 by (simp add: updated_scheduled_def)
  from test_operations_invariant
         [where e = sample_env and tc = sample_create and u = sample_user and d = sample_db
            and t = "fst (projr created)" and d' = "snd (projr created)"] c1
  have c2: "result (fst (projr created)) = PENDING \<and> \<not> is_validated (fst (projr created))"
    by blast
  from test_operations_invariant
         [where lle = sample_list_le and e = sample_env and ts = sample_submit
            and u = sample_user and d = sample_db
            and tv = "fst (projr submitted)" and d' = "snd (projr submitted)"] s1
  obtain t where "tests (snd (projr submitted)) = tests sample_db @ [t]"
    and "t_status t = COMPLETED" and "is_validated t"
    by blast
  then have s2: "is_validated (last (tests (snd (projr submitted)))) \<and>
      t_status (last (tests (snd (projr submitted)))) = COMPLETED"
    by simp
  from test_operations_invariant
         [where lle = sample_list_le and tid = 1 and u = sample_user and d = scheduled_db
            and tv = "fst (projr validated_scheduled)" and d' = "snd (projr validated_scheduled)"]
       v1
  have "\<forall>x \<in> set (tests (snd (projr validated_scheduled))). test_id x = 1 \<longrightarrow> is_validated x"
    by blast
  with ids have v2: "list_all is_validated (tests (snd (projr validated_scheduled)))"
    by (simp add: list_all_iff)
  from test_operations_invariant
         [where tid = 1 and upd = verdict_only_update and u = sample_user and d = scheduled_db
            and t' = "fst (projr updated_scheduled)" and d' = "snd (projr updated_scheduled)"]
       u1 f
  have u2: "tests (snd (projr updated_scheduled)) = [fst (projr updated_scheduled)] \<and>
      result (fst (projr updated_scheduled)) = PASS \<and>
      \<not> is_validated (fst (projr updated_scheduled))"
    by (auto simp: scheduled_db_def sample_test_def verdict_only_update_def set_or_keep_def)
  show ?thesis using c0 c2 s0 s2 v0 v2 u0 u2 by blast
qed

section \<open>Claims about numbering\<close>

text \<open>
  C9. Two issuance requests that both await the count query before either flushes its
  row read the same count and mint the same certificate number, whatever the store and
  the bucket: the two generated numbers are one value, not two. (Run one after the other
  from the empty store, they mint 00001 and 00002.)
\<close>

theorem concurrent_mint_collision:
  "map_of (w_numbers (run_schedule e [Mint i, Mint j, Flush i, Flush j] w)) i
     = Some (generate_certificate_number e (w_db w)) \<and>
   map_of (w_numbers (run_schedule e [Mint i, Mint j, Flush i, Flush j] w)) j
     = Some (generate_certificate_number e (w_db w))"
  by (simp add: update_conv' split: option.splits sum.splits)

theorem concurrent_mint_collision_witness:
  "map_of (w_numbers (run_schedule sample_env [Mint 0, Mint 1, Flush 0, Flush 1] empty_world)) 0
     = Some ''CERT-202611-00001'' \<and>
   map_of (w_numbers (run_schedule sample_env [Mint 0, Mint 1, Flush 0, Flush 1] empty_world)) 1
     = Some ''CERT-202611-00001'' \<and>
   w_errors (run_schedule sample_env [Mint 0, Mint 1, Flush 0, Flush 1] empty_world)
     = [(1, IntegrityError)] \<and>
   map_of (w_numbers (run_schedule sample_env [Mint 0, Flush 0, Mint 1, Flush 1] empty_world)) 1
     = Some ''CERT-202611-00002''"
proof -
  have n: "generate_certificate_number sample_env (w_db empty_world) = ''CERT-202611-00001''"
    by (simp add: empty_world_def empty_db_def sample_env_def generate_certificate_number_def
          like_prefix_def zero_pad_5_1)
  from concurrent_mint_collision [of sample_env 0 1 empty_world]
  have both:
    "map_of (w_numbers (run_schedule sample_env [Mint 0, Mint 1, Flush 0, Flush 1] empty_world)) 0
       = Some ''CERT-202611-00001'' \<and>
     map_of (w_numbers (run_schedule sample_env [Mint 0, Mint 1, Flush 0, Flush 1] empty_world)) 1
       = Some ''CERT-202611-00001''"
    by (simp only: n)
  have rest:
    "w_errors (run_schedule sample_env [Mint 0, Mint 1, Flush 0, Flush 1] empty_world)
       = [(1, IntegrityError)] \<and>
     map_of (w_numbers (run_schedule sample_env [Mint 0, Flush 0, Mint 1, Flush 1] empty_world)) 1
       = Some ''CERT-202611-00002''"
    by (simp add: empty_world_def empty_db_def sample_env_def generate_certificate_number_def
          like_prefix_def zero_pad_5_1 zero_pad_5_2 insert_certificate_def
          issued_certificate_def Let_def)
  from both rest show ?thesis by blast
qed

end
